theory Spec2Isabelle
  imports Main
begin

section \<open>Shared data model\<close>

text \<open>
  The model follows \<^verbatim>\<open>userDataSyncWorkbenchService.ts\<close>. Asynchronous methods are
  modelled in the single-flow order in which their statements run; what a collaborator
  answers to a call is an argument of the model, and every outgoing call or fired event is
  appended to a trace.
\<close>

text \<open>
  Modelled from the spec: \<^verbatim>\<open>URI\<close> and \<^verbatim>\<open>isEqual\<close> of
  \<^verbatim>\<open>vs/base/common/resources\<close> are imported and not part of the sources. A URI is
  taken in its normalised textual form and \<^verbatim>\<open>isEqual\<close> is equality of that form
  (the spec compares lists "by local URI").
\<close>

type_synonym uri = string

definition isEqual :: "uri \<Rightarrow> uri \<Rightarrow> bool" where
  "isEqual a b = (a = b)"

text \<open>
  Modelled from the spec: \<^verbatim>\<open>equals\<close> and \<^verbatim>\<open>flatten\<close> of
  \<^verbatim>\<open>vs/base/common/arrays\<close> are imported and not part of the sources. Two arrays
  are equal when they have the same length and their items are pairwise equal under the
  given item equality; \<^verbatim>\<open>flatten\<close> concatenates an array of arrays.
\<close>

fun equals :: "'a list \<Rightarrow> 'a list \<Rightarrow> ('a \<Rightarrow> 'a \<Rightarrow> bool) \<Rightarrow> bool" where
  "equals [] [] itemEquals = True"
| "equals (x # xs) (y # ys) itemEquals = (itemEquals x y \<and> equals xs ys itemEquals)"
| "equals [] (y # ys) itemEquals = False"
| "equals (x # xs) [] itemEquals = False"

definition flatten :: "'a list list \<Rightarrow> 'a list" where
  "flatten xss = concat xss"

text \<open>
  Modelled from the spec: the enumerations \<^verbatim>\<open>SyncResource\<close> and \<^verbatim>\<open>Change\<close>
  and the interfaces \<^verbatim>\<open>IResourcePreview\<close>, \<^verbatim>\<open>ISyncResourcePreview\<close> and
  \<^verbatim>\<open>IUserDataSyncResourceGroup\<close> are imported declarations; their members are the
  ones the source reads. The constructors of \<open>Change\<close> carry a prefix because \<open>None\<close> is
  the option constructor.
\<close>

datatype SyncResource = Settings | Keybindings | Snippets | Extensions | GlobalState

datatype Change = Change_None | Change_Added | Change_Modified | Change_Deleted

record IResourcePreview =
  localResource :: uri
  remoteResource :: uri
  previewResource :: uri
  rp_localChange :: Change
  rp_remoteChange :: Change
  merged :: bool

record ISyncResourcePreview =
  isLastSyncFromCurrentMachine :: bool
  resourcePreviews :: "IResourcePreview list"

record IUserDataSyncResourceGroup =
  syncResource :: SyncResource
  local :: uri
  remote :: uri
  preview :: uri
  localChange :: Change
  remoteChange :: Change

record IDecorationData =
  letter :: string

text \<open>
  Errors thrown by the source: \<^verbatim>\<open>canceled()\<close> and \<^verbatim>\<open>new Error(message)\<close>.
  A rejected collaborator call is an \<open>Error\<close> with the collaborator's message.
\<close>

datatype error = Canceled | Error string

text \<open>A manual sync task is an opaque handle; its methods are collaborator calls.\<close>

type_synonym task = nat

type_synonym sync_preview = "(SyncResource \<times> ISyncResourcePreview) list"

type_synonym conflicts_feed = "(SyncResource \<times> IResourcePreview list) list"

record ManualSync =
  ms_preview :: sync_preview
  ms_task :: task

datatype AccountStatus = Uninitialized | Unavailable | Available

text \<open>The argument of \<^verbatim>\<open>updateAccount\<close> of the token sink, when it is defined.\<close>

record token_value =
  value_token :: string
  value_authenticationProviderId :: string

text \<open>Every call to a collaborator and every fired event, in the order they happen.\<close>

datatype effect =
    Fire_onDidChangeChanges "IUserDataSyncResourceGroup list"
  | Fire_onDidChangeConflicts "IUserDataSyncResourceGroup list"
  | Task_accept task uri string
  | Task_merge task "uri option"
  | Task_pull task
  | Task_push task
  | AcceptPreviewContent SyncResource uri string
  | GetSessions string
  | Log_trace string string
  | Log_error error
  | Log_debug string AccountStatus AccountStatus
  | UpdateAccount "token_value option"
  | AccountStatusContext_set AccountStatus
  | Fire_onDidChangeAccountStatus AccountStatus
  | Telemetry string "(string \<times> string) list"
  | QuickPick_show
  | Login string "string list"
  | Dialog_show string "string list" nat
  | ResetLocal
  | CreateManualSyncTask
  | Progress_report string
  | Task_preview task
  | HasLocalData
  | Task_stop task
  | Task_dispose task
  | ShowManualSyncViewContext_set bool
  | ExecuteCommand_showSyncedData
  | OpenView_manualSyncView
  | OpenViewContainer_previous
  | CloseViewContainer_manualSync
  | AutoSync_turnOn
  | Notification_info_turnedOn

section \<open>UserDataSyncPreview\<close>

text \<open>
  The state of the class: the private arrays \<^verbatim>\<open>_changes\<close> and \<^verbatim>\<open>_conflicts\<close>
  behind the getters \<open>changes\<close> and \<open>conflicts\<close>, the optional \<^verbatim>\<open>manualSync\<close>, and
  the trace of task calls, engine calls and fired events.
\<close>

record preview_state =
  changes :: "IUserDataSyncResourceGroup list"
  conflicts :: "IUserDataSyncResourceGroup list"
  manualSync :: "ManualSync option"
  pv_trace :: "effect list"

text \<open>What the collaborators answer during one operation of the preview.\<close>

record preview_env =
  task_accept :: "task \<Rightarrow> uri \<Rightarrow> string \<Rightarrow> error + sync_preview"
  task_merge :: "task \<Rightarrow> uri option \<Rightarrow> error + sync_preview"
  task_pull :: "task \<Rightarrow> error + unit"
  task_push :: "task \<Rightarrow> error + unit"
  acceptPreviewContent :: "SyncResource \<Rightarrow> uri \<Rightarrow> string \<Rightarrow> error + unit"

definition toUserDataSyncResourceGroups :: "conflicts_feed \<Rightarrow> IUserDataSyncResourceGroup list" where
  "toUserDataSyncResourceGroups syncResourcePreviews =
     flatten (map (\<lambda>(sr, rps).
       map (\<lambda>r. \<lparr>syncResource = sr, local = localResource r, remote = remoteResource r,
                 preview = previewResource r, localChange = rp_localChange r,
                 remoteChange = rp_remoteChange r\<rparr>) rps) syncResourcePreviews)"

definition sameLocal :: "IUserDataSyncResourceGroup \<Rightarrow> IUserDataSyncResourceGroup \<Rightarrow> bool" where
  "sameLocal a b = isEqual (local a) (local b)"

text \<open>The filter of \<^verbatim>\<open>updateChanges\<close> on one resource preview of kind \<open>sr\<close>.\<close>

definition keepChange :: "IUserDataSyncResourceGroup list \<Rightarrow> SyncResource \<Rightarrow> IResourcePreview \<Rightarrow> bool" where
  "keepChange cs sr r =
     (\<not> merged r
      \<and> (rp_localChange r \<noteq> Change_None \<or> rp_remoteChange r \<noteq> Change_None)
      \<and> \<not> list_ex (\<lambda>c. syncResource c = sr \<and> isEqual (local c) (localResource r)) cs)"

text \<open>The value of \<^verbatim>\<open>newChanges\<close> in \<^verbatim>\<open>updateChanges\<close>.\<close>

definition newChanges :: "preview_state \<Rightarrow> IUserDataSyncResourceGroup list" where
  "newChanges s =
     toUserDataSyncResourceGroups
       (map (\<lambda>(sr, sp). (sr, filter (keepChange (conflicts s) sr) (resourcePreviews sp)))
          (filter (\<lambda>(sr, sp). sr \<noteq> GlobalState)
             (case manualSync s of None \<Rightarrow> [] | Some m \<Rightarrow> ms_preview m)))"

definition updateChanges :: "preview_state \<Rightarrow> preview_state" where
  "updateChanges s =
     (if \<not> equals (newChanges s) (changes s) sameLocal
      then s\<lparr>changes := newChanges s,
             pv_trace := pv_trace s @ [Fire_onDidChangeChanges (newChanges s)]\<rparr>
      else s)"

definition updateConflicts :: "conflicts_feed \<Rightarrow> preview_state \<Rightarrow> preview_state" where
  "updateConflicts cf s =
     (let newConflicts = toUserDataSyncResourceGroups cf;
          s1 = (if \<not> equals newConflicts (conflicts s) sameLocal
                then s\<lparr>conflicts := newConflicts,
                       pv_trace := pv_trace s @ [Fire_onDidChangeConflicts newConflicts]\<rparr>
                else s)
      in updateChanges s1)"

definition updatePreview :: "sync_preview \<Rightarrow> preview_state \<Rightarrow> preview_state" where
  "updatePreview p s =
     (case manualSync s of
        Some m \<Rightarrow> updateChanges (s\<lparr>manualSync := Some (m\<lparr>ms_preview := p\<rparr>)\<rparr>)
      | None \<Rightarrow> s)"

definition setManualSyncPreview :: "task \<Rightarrow> sync_preview \<Rightarrow> preview_state \<Rightarrow> preview_state" where
  "setManualSyncPreview t p s =
     updateChanges (s\<lparr>manualSync := Some \<lparr>ms_preview = p, ms_task = t\<rparr>\<rparr>)"

text \<open>The field initialisers, and the constructor with the engine's conflicts at that time.\<close>

definition preview_fields :: preview_state where
  "preview_fields = \<lparr>changes = [], conflicts = [], manualSync = None, pv_trace = []\<rparr>"

definition new_UserDataSyncPreview :: "conflicts_feed \<Rightarrow> preview_state" where
  "new_UserDataSyncPreview cf = updateConflicts cf preview_fields"

definition accept ::
  "preview_env \<Rightarrow> SyncResource \<Rightarrow> uri \<Rightarrow> string \<Rightarrow> preview_state \<Rightarrow> (error + unit) \<times> preview_state" where
  "accept env sr resource content s =
     (case manualSync s of
        Some m \<Rightarrow>
          (let s1 = s\<lparr>pv_trace := pv_trace s @ [Task_accept (ms_task m) resource content]\<rparr>
           in case task_accept env (ms_task m) resource content of
                Inl e \<Rightarrow> (Inl e, s1)
              | Inr syncPreview \<Rightarrow> (Inr (), updatePreview syncPreview s1))
      | None \<Rightarrow>
          (let s1 = s\<lparr>pv_trace := pv_trace s @ [AcceptPreviewContent sr resource content]\<rparr>
           in case acceptPreviewContent env sr resource content of
                Inl e \<Rightarrow> (Inl e, s1)
              | Inr u \<Rightarrow> (Inr (), s1)))"

definition merge ::
  "preview_env \<Rightarrow> uri option \<Rightarrow> preview_state \<Rightarrow> (error + unit) \<times> preview_state" where
  "merge env resource s =
     (case manualSync s of
        None \<Rightarrow> (Inl (Error ''Can merge only while syncing manually''), s)
      | Some m \<Rightarrow>
          (let s1 = s\<lparr>pv_trace := pv_trace s @ [Task_merge (ms_task m) resource]\<rparr>
           in case task_merge env (ms_task m) resource of
                Inl e \<Rightarrow> (Inl e, s1)
              | Inr syncPreview \<Rightarrow> (Inr (), updatePreview syncPreview s1)))"

definition pull :: "preview_env \<Rightarrow> preview_state \<Rightarrow> (error + unit) \<times> preview_state" where
  "pull env s =
     (case manualSync s of
        None \<Rightarrow> (Inl (Error ''Can pull only while syncing manually''), s)
      | Some m \<Rightarrow>
          (let s1 = s\<lparr>pv_trace := pv_trace s @ [Task_pull (ms_task m)]\<rparr>
           in case task_pull env (ms_task m) of
                Inl e \<Rightarrow> (Inl e, s1)
              | Inr u \<Rightarrow> (Inr (), updatePreview [] s1)))"

definition push :: "preview_env \<Rightarrow> preview_state \<Rightarrow> (error + unit) \<times> preview_state" where
  "push env s =
     (case manualSync s of
        None \<Rightarrow> (Inl (Error ''Can push only while syncing manually''), s)
      | Some m \<Rightarrow>
          (let s1 = s\<lparr>pv_trace := pv_trace s @ [Task_push (ms_task m)]\<rparr>
           in case task_push env (ms_task m) of
                Inl e \<Rightarrow> (Inl e, s1)
              | Inr u \<Rightarrow> (Inr (), updatePreview [] s1)))"

text \<open>
  \<^verbatim>\<open>changes.find(..) || conflicts.find(..)\<close>: the first entry of \<open>changes\<close> with the
  remote URI, else the first such entry of \<open>conflicts\<close>.
\<close>

definition changeResource :: "uri \<Rightarrow> preview_state \<Rightarrow> IUserDataSyncResourceGroup option" where
  "changeResource resource s =
     (case find (\<lambda>c. isEqual (remote c) resource) (changes s) of
        Some c \<Rightarrow> Some c
      | None \<Rightarrow> find (\<lambda>c. isEqual (remote c) resource) (conflicts s))"

definition provideDecorations :: "uri \<Rightarrow> preview_state \<Rightarrow> IDecorationData option" where
  "provideDecorations resource s =
     (case changeResource resource s of
        Some c \<Rightarrow>
          if localChange c = Change_Modified \<or> remoteChange c = Change_Modified
          then Some \<lparr>letter = ''M''\<rparr>
          else if localChange c = Change_Added \<or> localChange c = Change_Deleted
                  \<or> remoteChange c = Change_Added \<or> remoteChange c = Change_Deleted
          then Some \<lparr>letter = ''A''\<rparr>
          else None
      | None \<Rightarrow> None)"

subsection \<open>Sequences of operations on the preview\<close>

text \<open>
  The public operations and the engine's conflicts feed, as the steps of a run. A run starts
  from the constructor; the result of a failing operation is dropped and its state kept.
\<close>

datatype preview_op =
    Op_setManualSyncPreview task sync_preview
  | Op_accept preview_env SyncResource uri string
  | Op_merge preview_env "uri option"
  | Op_pull preview_env
  | Op_push preview_env
  | Op_updateConflicts conflicts_feed

fun step :: "preview_op \<Rightarrow> preview_state \<Rightarrow> preview_state" where
  "step (Op_setManualSyncPreview t p) s = setManualSyncPreview t p s"
| "step (Op_accept env sr resource content) s = snd (accept env sr resource content s)"
| "step (Op_merge env resource) s = snd (merge env resource s)"
| "step (Op_pull env) s = snd (pull env s)"
| "step (Op_push env) s = snd (push env s)"
| "step (Op_updateConflicts cf) s = updateConflicts cf s"

definition run :: "preview_op list \<Rightarrow> preview_state \<Rightarrow> preview_state" where
  "run ops s = foldl (\<lambda>s op. step op s) s ops"


text \<open>The stored changes agree with a recomputation, under the comparison of the source.\<close>

definition upToDate :: "preview_state \<Rightarrow> bool" where
  "upToDate s = equals (newChanges s) (changes s) sameLocal"

definition changesOk :: "IUserDataSyncResourceGroup list \<Rightarrow> bool" where
  "changesOk gs = list_all (\<lambda>g. syncResource g \<noteq> GlobalState
      \<and> (localChange g \<noteq> Change_None \<or> remoteChange g \<noteq> Change_None)) gs"

definition preview_inv :: "preview_state \<Rightarrow> bool" where
  "preview_inv s = (upToDate s \<and> changesOk (changes s))"

fun is_conflicts_event :: "effect \<Rightarrow> bool" where
  "is_conflicts_event (Fire_onDidChangeConflicts gs) = True"
| "is_conflicts_event e = False"

text \<open>
  Inputs in which a local URI determines its resource kind: every entry of a conflicts feed
  or of a preview listed under the kind \<open>sr\<close> has a local URI \<open>u\<close> with \<open>k u = sr\<close>. For
  \<^verbatim>\<open>accept\<close> and \<^verbatim>\<open>merge\<close> this is required of every preview the task may answer.
\<close>

definition kinded_feed :: "(uri \<Rightarrow> SyncResource) \<Rightarrow> conflicts_feed \<Rightarrow> bool" where
  "kinded_feed k cf = list_all (\<lambda>(sr, rps). list_all (\<lambda>r. k (localResource r) = sr) rps) cf"

definition kinded_preview :: "(uri \<Rightarrow> SyncResource) \<Rightarrow> sync_preview \<Rightarrow> bool" where
  "kinded_preview k p =
     list_all (\<lambda>(sr, sp). list_all (\<lambda>r. k (localResource r) = sr) (resourcePreviews sp)) p"

fun kinded_op :: "(uri \<Rightarrow> SyncResource) \<Rightarrow> preview_op \<Rightarrow> bool" where
  "kinded_op k (Op_setManualSyncPreview t p) = kinded_preview k p"
| "kinded_op k (Op_accept env sr resource content) =
     (\<forall>t p. task_accept env t resource content = Inr p \<longrightarrow> kinded_preview k p)"
| "kinded_op k (Op_merge env resource) =
     (\<forall>t p. task_merge env t resource = Inr p \<longrightarrow> kinded_preview k p)"
| "kinded_op k (Op_pull env) = True"
| "kinded_op k (Op_push env) = True"
| "kinded_op k (Op_updateConflicts cf) = kinded_feed k cf"

definition kinded_groups :: "(uri \<Rightarrow> SyncResource) \<Rightarrow> IUserDataSyncResourceGroup list \<Rightarrow> bool" where
  "kinded_groups k gs = list_all (\<lambda>g. k (local g) = syncResource g) gs"

definition kinded_state :: "(uri \<Rightarrow> SyncResource) \<Rightarrow> preview_state \<Rightarrow> bool" where
  "kinded_state k s =
     (kinded_groups k (changes s) \<and> kinded_groups k (conflicts s)
      \<and> (case manualSync s of None \<Rightarrow> True | Some m \<Rightarrow> kinded_preview k (ms_preview m)))"


subsection \<open>Example values\<close>

definition settings_rp :: IResourcePreview where
  "settings_rp = \<lparr>localResource = ''local/settings.json'', remoteResource = ''remote/settings.json'',
     previewResource = ''preview/settings.json'', rp_localChange = Change_Modified,
     rp_remoteChange = Change_None, merged = False\<rparr>"

definition settings_group :: "SyncResource \<Rightarrow> IUserDataSyncResourceGroup" where
  "settings_group sr = \<lparr>syncResource = sr, local = ''local/settings.json'',
     remote = ''remote/settings.json'', preview = ''preview/settings.json'',
     localChange = Change_Modified, remoteChange = Change_None\<rparr>"

definition settings_preview :: "SyncResource \<Rightarrow> sync_preview" where
  "settings_preview sr =
     [(sr, \<lparr>isLastSyncFromCurrentMachine = False, resourcePreviews = [settings_rp]\<rparr>)]"

definition quiet_env :: preview_env where
  "quiet_env = \<lparr>task_accept = (\<lambda>t u c. Inr []), task_merge = (\<lambda>t u. Inr []),
     task_pull = (\<lambda>t. Inr ()), task_push = (\<lambda>t. Inr ()),
     acceptPreviewContent = (\<lambda>sr u c. Inr ())\<rparr>"

definition keybindings_rp :: IResourcePreview where
  "keybindings_rp = \<lparr>localResource = ''local/keybindings.json'',
     remoteResource = ''remote/keybindings.json'', previewResource = ''preview/keybindings.json'',
     rp_localChange = Change_None, rp_remoteChange = Change_Added, merged = False\<rparr>"

definition keybindings_group :: IUserDataSyncResourceGroup where
  "keybindings_group = \<lparr>syncResource = Keybindings, local = ''local/keybindings.json'',
     remote = ''remote/keybindings.json'', preview = ''preview/keybindings.json'',
     localChange = Change_None, remoteChange = Change_Added\<rparr>"

definition both_previews :: sync_preview where
  "both_previews =
     [(Settings, \<lparr>isLastSyncFromCurrentMachine = False, resourcePreviews = [settings_rp]\<rparr>),
      (Keybindings, \<lparr>isLastSyncFromCurrentMachine = False, resourcePreviews = [keybindings_rp]\<rparr>)]"

definition kind_of_example :: "uri \<Rightarrow> SyncResource" where
  "kind_of_example u = (if u = ''local/settings.json'' then Settings else Keybindings)"

definition added_modified_rp :: IResourcePreview where
  "added_modified_rp = \<lparr>localResource = ''local/settings.json'',
     remoteResource = ''remote/settings.json'', previewResource = ''preview/settings.json'',
     rp_localChange = Change_Added, rp_remoteChange = Change_Modified, merged = False\<rparr>"



section \<open>UserDataSyncWorkbenchService\<close>

text \<open>
  Modelled: \<^verbatim>\<open>update\<close> with \<^verbatim>\<open>getAccounts\<close>, \<^verbatim>\<open>updateToken\<close> and
  \<^verbatim>\<open>updateAccountStatus\<close>; the getters \<^verbatim>\<open>all\<close>, \<^verbatim>\<open>current\<close> and
  \<^verbatim>\<open>currentSessionId\<close> and its setter; \<^verbatim>\<open>getFirstTimeSyncAction\<close>;
  \<^verbatim>\<open>doPick\<close>, \<^verbatim>\<open>pick\<close>, \<^verbatim>\<open>switch\<close>, \<^verbatim>\<open>turnOn\<close> and
  \<^verbatim>\<open>syncBeforeTurningOn\<close>. The constructor, \<^verbatim>\<open>initialize\<close> and the event
  handlers only decide when a refresh runs and are left out. Of the quick pick only its
  outcome is modelled, and of \<^verbatim>\<open>createQuickpickItems\<close> only its effect on the state.
  The dialog, the commands and the views are taken to resolve; the other awaited calls may
  reject, and a rejection is thrown on as the source does.
\<close>

text \<open>
  Modelled from the spec: \<^verbatim>\<open>AuthenticationSession\<close> and
  \<^verbatim>\<open>IAuthenticationProvider\<close> are imported declarations. A session has an id, an
  account with a label and an id, and an access token; the spec calls the token lazily
  fetched and its fetch fallible, and \<^verbatim>\<open>updateToken\<close> reads it inside a
  \<^verbatim>\<open>try\<close>, so reading the token either yields it or throws.
\<close>

record AuthenticationSession =
  session_id :: string
  account_label :: string
  account_id :: string
  accessToken :: "error + string"

record IAuthenticationProvider =
  provider_id :: string
  scopes :: "string list"

record UserDataSyncAccount =
  authenticationProviderId :: string
  session :: AuthenticationSession

definition sessionId :: "UserDataSyncAccount \<Rightarrow> string" where
  "sessionId a = session_id (session a)"

definition accountName :: "UserDataSyncAccount \<Rightarrow> string" where
  "accountName a = account_label (session a)"

definition accountId :: "UserDataSyncAccount \<Rightarrow> string" where
  "accountId a = account_id (session a)"

definition token :: "UserDataSyncAccount \<Rightarrow> error + string" where
  "token a = accessToken (session a)"

text \<open>
  A JavaScript \<^verbatim>\<open>Map\<close> keeps its keys in insertion order: \<^verbatim>\<open>set\<close> on a
  present key replaces the value in place, on a new key it appends.
\<close>

fun Map_set :: "'k \<Rightarrow> 'v \<Rightarrow> ('k \<times> 'v) list \<Rightarrow> ('k \<times> 'v) list" where
  "Map_set k v [] = [(k, v)]"
| "Map_set k v ((k', v') # m) = (if k' = k then (k, v) # m else (k', v') # Map_set k v m)"

definition Map_values :: "('k \<times> 'v) list \<Rightarrow> 'v list" where
  "Map_values m = map snd m"

text \<open>
  The fields of the service that the modelled methods use. \<open>cachedCurrentSessionId\<close> is
  \<open>None\<close> for \<^verbatim>\<open>null\<close> (not read yet) and \<open>Some v\<close> for a cached value, itself
  optional. \<open>storedSessionId\<close> is the value of the global storage key
  \<^verbatim>\<open>userDataSyncAccountPreference\<close>.
\<close>

record workbench_state =
  authenticationProviders :: "IAuthenticationProvider list"
  accountStatus :: AccountStatus
  all_map :: "(string \<times> UserDataSyncAccount list) list"
  cachedCurrentSessionId :: "string option option"
  storedSessionId :: "string option"
  userDataSyncPreview :: preview_state
  trace :: "effect list"

text \<open>What the authentication service and the token sink answer during one refresh.\<close>

record refresh_env =
  getSessions :: "string \<Rightarrow> error + AuthenticationSession list option"
  updateAccount :: "token_value option \<Rightarrow> error + unit"

definition log :: "effect list \<Rightarrow> workbench_state \<Rightarrow> workbench_state" where
  "log es s = s\<lparr>trace := trace s @ es\<rparr>"

definition all_accounts :: "workbench_state \<Rightarrow> UserDataSyncAccount list" where
  "all_accounts s = flatten (Map_values (all_map s))"

definition getStoredCachedSessionId :: "workbench_state \<Rightarrow> string option" where
  "getStoredCachedSessionId s = storedSessionId s"

text \<open>The getter \<^verbatim>\<open>currentSessionId\<close> fills the cache on its first read.\<close>

definition get_currentSessionId :: "workbench_state \<Rightarrow> string option \<times> workbench_state" where
  "get_currentSessionId s =
     (case cachedCurrentSessionId s of
        None \<Rightarrow> (getStoredCachedSessionId s,
                  s\<lparr>cachedCurrentSessionId := Some (getStoredCachedSessionId s)\<rparr>)
      | Some v \<Rightarrow> (v, s))"

definition set_currentSessionId :: "string option \<Rightarrow> workbench_state \<Rightarrow> workbench_state" where
  "set_currentSessionId cachedSessionId s =
     (if cachedCurrentSessionId s \<noteq> Some cachedSessionId
      then s\<lparr>cachedCurrentSessionId := Some cachedSessionId, storedSessionId := cachedSessionId\<rparr>
      else s)"

definition isCurrentAccount :: "UserDataSyncAccount \<Rightarrow> workbench_state \<Rightarrow> bool \<times> workbench_state" where
  "isCurrentAccount account s =
     (let (sid, s1) = get_currentSessionId s in (Some (sessionId account) = sid, s1))"

fun filter_isCurrentAccount ::
  "UserDataSyncAccount list \<Rightarrow> workbench_state \<Rightarrow> UserDataSyncAccount list \<times> workbench_state" where
  "filter_isCurrentAccount [] s = ([], s)"
| "filter_isCurrentAccount (a # as) s =
     (let (b, s1) = isCurrentAccount a s;
          (rest, s2) = filter_isCurrentAccount as s1
      in (if b then a # rest else rest, s2))"

definition current :: "workbench_state \<Rightarrow> UserDataSyncAccount option \<times> workbench_state" where
  "current s =
     (let (xs, s1) = filter_isCurrentAccount (all_accounts s) s
      in (case xs of [] \<Rightarrow> None | a # rest \<Rightarrow> Some a, s1))"

text \<open>The loop of \<^verbatim>\<open>getAccounts\<close> over the sessions of one provider.\<close>

fun getAccounts_loop ::
  "string \<Rightarrow> AuthenticationSession list \<Rightarrow> (string \<times> UserDataSyncAccount) list
     \<Rightarrow> UserDataSyncAccount option \<Rightarrow> workbench_state
     \<Rightarrow> ((string \<times> UserDataSyncAccount) list \<times> UserDataSyncAccount option) \<times> workbench_state" where
  "getAccounts_loop pid [] accounts currentAccount s = ((accounts, currentAccount), s)"
| "getAccounts_loop pid (x # xs) accounts currentAccount s =
     (let account = \<lparr>authenticationProviderId = pid, session = x\<rparr>;
          accounts1 = Map_set (accountName account) account accounts;
          (b, s1) = isCurrentAccount account s
      in getAccounts_loop pid xs accounts1 (if b then Some account else currentAccount) s1)"

definition getAccounts ::
  "refresh_env \<Rightarrow> string \<Rightarrow> workbench_state \<Rightarrow> (error + UserDataSyncAccount list) \<times> workbench_state" where
  "getAccounts env pid s =
     (let s0 = log [GetSessions pid] s
      in case getSessions env pid of
           Inl e \<Rightarrow> (Inl e, s0)
         | Inr r \<Rightarrow>
             (let sessions = (case r of None \<Rightarrow> [] | Some xs \<Rightarrow> xs);
                  ((accounts, currentAccount), s1) = getAccounts_loop pid sessions [] None s0;
                  accounts1 = (case currentAccount of
                                 Some c \<Rightarrow> Map_set (accountName c) c accounts
                               | None \<Rightarrow> accounts)
              in (Inr (Map_values accounts1), s1)))"

definition updateToken ::
  "refresh_env \<Rightarrow> UserDataSyncAccount option \<Rightarrow> workbench_state \<Rightarrow> (error + unit) \<times> workbench_state" where
  "updateToken env cur s =
     (let (v, s1) =
            (case cur of
               None \<Rightarrow> (None, s)
             | Some c \<Rightarrow>
                 (let s0 = log [Log_trace ''Preferences Sync: Updating the token for the account''
                                  (accountName c)] s
                  in case token c of
                       Inr t \<Rightarrow>
                         (Some \<lparr>value_token = t,
                                value_authenticationProviderId = authenticationProviderId c\<rparr>,
                          log [Log_trace ''Preferences Sync: Token updated for the account''
                                 (accountName c)] s0)
                     | Inl e \<Rightarrow> (None, log [Log_error e] s0)));
          s2 = log [UpdateAccount v] s1
      in case updateAccount env v of
           Inl e \<Rightarrow> (Inl e, s2)
         | Inr u \<Rightarrow> (Inr (), s2))"

definition updateAccountStatus :: "UserDataSyncAccount option \<Rightarrow> workbench_state \<Rightarrow> workbench_state" where
  "updateAccountStatus cur s =
     (let st = (if cur \<noteq> None then Available else Unavailable)
      in if accountStatus s \<noteq> st
         then (log [Log_debug ''Sync account status changed'' (accountStatus s) st,
                    AccountStatusContext_set st,
                    Fire_onDidChangeAccountStatus st] s)\<lparr>accountStatus := st\<rparr>
         else s)"

text \<open>The loop of \<^verbatim>\<open>update\<close> over the configured providers.\<close>

fun update_loop ::
  "refresh_env \<Rightarrow> IAuthenticationProvider list \<Rightarrow> (string \<times> UserDataSyncAccount list) list
     \<Rightarrow> workbench_state \<Rightarrow> (error + (string \<times> UserDataSyncAccount list) list) \<times> workbench_state" where
  "update_loop env [] allAccounts s = (Inr allAccounts, s)"
| "update_loop env (p # ps) allAccounts s =
     (case getAccounts env (provider_id p) s of
        (Inl e, s1) \<Rightarrow> (Inl e, s1)
      | (Inr accounts, s1) \<Rightarrow>
          update_loop env ps (Map_set (provider_id p) accounts allAccounts) s1)"

definition update :: "refresh_env \<Rightarrow> workbench_state \<Rightarrow> (error + unit) \<times> workbench_state" where
  "update env s =
     (case update_loop env (authenticationProviders s) [] s of
        (Inl e, s1) \<Rightarrow> (Inl e, s1)
      | (Inr allAccounts, s1) \<Rightarrow>
          (let s2 = s1\<lparr>all_map := allAccounts\<rparr>;
               (cur, s3) = current s2
           in case updateToken env cur s3 of
                (Inl e, s4) \<Rightarrow> (Inl e, s4)
              | (Inr u, s4) \<Rightarrow> (Inr (), updateAccountStatus cur s4)))"

subsection \<open>First-time sync decision\<close>

datatype FirstTimeSyncAction = Pull | Push | Merge | Manual

text \<open>
  \<open>choice\<close> is what the dialog resolves with when it is shown; dismissing it gives the
  \<^verbatim>\<open>cancelId\<close>, 3. The result comes with the calls made, in order.
\<close>

definition getFirstTimeSyncAction ::
  "bool \<Rightarrow> bool \<Rightarrow> bool \<Rightarrow> bool \<Rightarrow> nat \<Rightarrow> (error + FirstTimeSyncAction) \<times> effect list" where
  "getFirstTimeSyncAction hasRemoteData hasLocalData hasChanges isLastSyncFromCurrentMachine' choice =
     (if \<not> hasLocalData \<or> \<not> hasRemoteData \<or> \<not> hasChanges \<or> isLastSyncFromCurrentMachine'
      then (Inr Merge, [])
      else
        (let shown = Dialog_show ''Replace or Merge''
                       [''Sync Manually'', ''Merge'', ''Replace Local'', ''Cancel''] 3
         in if choice = 0
            then (Inr Manual, [shown, Telemetry ''sync/firstTimeSync'' [(''action'', ''manual'')]])
            else if choice = 1
            then (Inr Merge, [shown, Telemetry ''sync/firstTimeSync'' [(''action'', ''merge'')]])
            else if choice = 2
            then (Inr Pull, [shown, Telemetry ''sync/firstTimeSync'' [(''action'', ''pull'')]])
            else (Inl Canceled,
                  [shown, Telemetry ''sync/firstTimeSync'' [(''action'', ''cancelled'')]])))"

fun is_dialog :: "effect \<Rightarrow> bool" where
  "is_dialog (Dialog_show title buttons cancelId) = True"
| "is_dialog e = False"

subsection \<open>Picking an account and switching to it\<close>

text \<open>
  What the quick pick resolves with: the account of the accepted item, else its provider
  (\<^verbatim>\<open>isAuthenticationProvider\<close> tells them apart).
\<close>

datatype pick_result = Picked_account UserDataSyncAccount | Picked_provider IAuthenticationProvider

text \<open>
  What the collaborators answer during one \<^verbatim>\<open>pick\<close>: the refresh inside
  \<^verbatim>\<open>doPick\<close>, the order in which \<^verbatim>\<open>createQuickpickItems\<close> leaves each
  provider's account array (it sorts the arrays of \<^verbatim>\<open>_all\<close> in place), the item the
  user accepts if any, the login, and the refresh inside \<^verbatim>\<open>switch\<close>.
\<close>

record pick_env =
  doPick_refresh :: refresh_env
  quickPick_sorted :: "UserDataSyncAccount list \<Rightarrow> UserDataSyncAccount list"
  quickPick_accepted :: "pick_result option"
  login :: "string \<Rightarrow> string list \<Rightarrow> error + AuthenticationSession"
  switch_refresh :: refresh_env

definition doPick :: "pick_env \<Rightarrow> workbench_state \<Rightarrow> (error + pick_result option) \<times> workbench_state" where
  "doPick pe s =
     (if authenticationProviders s = [] then (Inr None, s)
      else case update (doPick_refresh pe) s of
             (Inl e, s1) \<Rightarrow> (Inl e, s1)
           | (Inr u, s1) \<Rightarrow>
               (case (authenticationProviders s1, all_accounts s1) of
                  ([p], []) \<Rightarrow> (Inr (Some (Picked_provider p)), s1)
                | other \<Rightarrow>
                    (let s2 = (if all_accounts s1 \<noteq> []
                               then s1\<lparr>all_map := map (\<lambda>(k, v). (k, quickPick_sorted pe v))
                                                      (all_map s1)\<rparr>
                               else s1)
                     in (Inr (quickPick_accepted pe), log [QuickPick_show] s2))))"

definition switch ::
  "string \<Rightarrow> string \<Rightarrow> string \<Rightarrow> refresh_env \<Rightarrow> workbench_state
     \<Rightarrow> (error + unit) \<times> workbench_state" where
  "switch sessionId' accountName' accountId' env s =
     (let (currentAccount, s1) = current s;
          s2 = set_currentSessionId (Some sessionId') s1;
          s3 = log [Telemetry ''sync.userAccount'' [(''id'', accountId')]] s2
      in update env s3)"

definition pick :: "pick_env \<Rightarrow> workbench_state \<Rightarrow> (error + bool) \<times> workbench_state" where
  "pick pe s =
     (case doPick pe s of
        (Inl e, s1) \<Rightarrow> (Inl e, s1)
      | (Inr None, s1) \<Rightarrow> (Inr False, s1)
      | (Inr (Some (Picked_provider p)), s1) \<Rightarrow>
          (let s2 = log [Login (provider_id p) (scopes p)] s1
           in case login pe (provider_id p) (scopes p) of
                Inl e \<Rightarrow> (Inl e, s2)
              | Inr x \<Rightarrow>
                  (case switch (session_id x) (account_label x) (account_id x)
                          (switch_refresh pe) s2 of
                     (Inl e, s3) \<Rightarrow> (Inl e, s3)
                   | (Inr u, s3) \<Rightarrow> (Inr True, s3)))
      | (Inr (Some (Picked_account a)), s1) \<Rightarrow>
          (case switch (sessionId a) (accountName a) (accountId a) (switch_refresh pe) s1 of
             (Inl e, s3) \<Rightarrow> (Inl e, s3)
           | (Inr u, s3) \<Rightarrow> (Inr True, s3)))"

subsection \<open>Turning sync on\<close>

text \<open>
  What the collaborators answer during the sync that precedes turning on. The manual path
  ends by waiting for the preview's change events, which later operations on the preview
  fire; the model stops there with \<open>Awaiting_manual_sync\<close>.
\<close>

record sync_env =
  resetLocal :: "error + unit"
  createManualSyncTask :: "error + task"
  task_preview :: "task \<Rightarrow> error + sync_preview"
  task_manifest_present :: "task \<Rightarrow> bool"
  env_hasLocalData :: "error + bool"
  dialog_choice :: nat
  task_calls :: preview_env
  task_stop :: "task \<Rightarrow> error + unit"
  autoSync_turnOn :: "error + unit"

datatype outcome = Completed | Awaiting_manual_sync task

definition syncManually_begin :: "task \<Rightarrow> sync_preview \<Rightarrow> workbench_state \<Rightarrow> workbench_state" where
  "syncManually_begin t p s =
     log [ShowManualSyncViewContext_set True, ExecuteCommand_showSyncedData, OpenView_manualSyncView]
       (s\<lparr>userDataSyncPreview := setManualSyncPreview t p (userDataSyncPreview s)\<rparr>)"

text \<open>The body of the \<^verbatim>\<open>try\<close> of \<^verbatim>\<open>syncBeforeTurningOn\<close>.\<close>

definition syncBeforeTurningOn_try ::
  "sync_env \<Rightarrow> task \<Rightarrow> workbench_state \<Rightarrow> (error + outcome) \<times> workbench_state" where
  "syncBeforeTurningOn_try se t s =
     (let s1 = log [Progress_report ''Turning on...'', Task_preview t] s
      in case task_preview se t of
           Inl e \<Rightarrow> (Inl e, s1)
         | Inr p \<Rightarrow>
             (let hasRemoteData = task_manifest_present se t;
                  s2 = log [HasLocalData] s1
              in case env_hasLocalData se of
                   Inl e \<Rightarrow> (Inl e, s2)
                 | Inr hasLocalData \<Rightarrow>
                     (let hasChanges = list_ex (\<lambda>(sr, sp).
                            list_ex (\<lambda>r. rp_localChange r \<noteq> Change_None
                                         \<or> rp_remoteChange r \<noteq> Change_None)
                              (resourcePreviews sp)) p;
                          lastFromHere = list_all (\<lambda>(sr, sp). isLastSyncFromCurrentMachine sp) p;
                          (action, es) = getFirstTimeSyncAction hasRemoteData hasLocalData
                                           hasChanges lastFromHere (dialog_choice se);
                          s3 = log es s2
                      in case action of
                           Inl e \<Rightarrow> (Inl e, s3)
                         | Inr Merge \<Rightarrow>
                             (case task_merge (task_calls se) t None of
                                Inl e \<Rightarrow> (Inl e, log [Task_merge t None] s3)
                              | Inr u \<Rightarrow> (Inr Completed, log [Task_merge t None] s3))
                         | Inr Pull \<Rightarrow>
                             (case task_pull (task_calls se) t of
                                Inl e \<Rightarrow> (Inl e, log [Task_pull t] s3)
                              | Inr u \<Rightarrow> (Inr Completed, log [Task_pull t] s3))
                         | Inr Push \<Rightarrow>
                             (case task_push (task_calls se) t of
                                Inl e \<Rightarrow> (Inl e, log [Task_push t] s3)
                              | Inr u \<Rightarrow> (Inr Completed, log [Task_push t] s3))
                         | Inr Manual \<Rightarrow>
                             (Inr (Awaiting_manual_sync t), syncManually_begin t p s3))))"

definition syncBeforeTurningOn ::
  "sync_env \<Rightarrow> workbench_state \<Rightarrow> (error + outcome) \<times> workbench_state" where
  "syncBeforeTurningOn se s =
     (let s1 = log [ResetLocal] s
      in case resetLocal se of
           Inl e \<Rightarrow> (Inl e, s1)
         | Inr u \<Rightarrow>
             (let s2 = log [CreateManualSyncTask] s1
              in case createManualSyncTask se of
                   Inl e \<Rightarrow> (Inl e, s2)
                 | Inr t \<Rightarrow>
                     (case syncBeforeTurningOn_try se t s2 of
                        (Inl e, s3) \<Rightarrow>
                          (case task_stop se t of
                             Inl e' \<Rightarrow> (Inl e', log [Task_stop t, Task_dispose t] s3)
                           | Inr u \<Rightarrow> (Inl e, log [Task_stop t, Task_dispose t] s3))
                      | (Inr (Awaiting_manual_sync t'), s3) \<Rightarrow> (Inr (Awaiting_manual_sync t'), s3)
                      | (Inr Completed, s3) \<Rightarrow> (Inr Completed, log [Task_dispose t] s3))))"

definition turnOn ::
  "pick_env \<Rightarrow> sync_env \<Rightarrow> workbench_state \<Rightarrow> (error + outcome) \<times> workbench_state" where
  "turnOn pe se s =
     (case pick pe s of
        (Inl e, s1) \<Rightarrow> (Inl e, s1)
      | (Inr picked, s1) \<Rightarrow>
          if \<not> picked then (Inl Canceled, s1)
          else if accountStatus s1 \<noteq> Available
          then (Inl (Error ''No account available''), s1)
          else (case syncBeforeTurningOn se s1 of
                  (Inl e, s2) \<Rightarrow> (Inl e, s2)
                | (Inr (Awaiting_manual_sync t), s2) \<Rightarrow> (Inr (Awaiting_manual_sync t), s2)
                | (Inr Completed, s2) \<Rightarrow>
                    (case autoSync_turnOn se of
                       Inl e \<Rightarrow> (Inl e, log [AutoSync_turnOn] s2)
                     | Inr u \<Rightarrow>
                         (Inr Completed, log [AutoSync_turnOn, Notification_info_turnedOn] s2))))"

text \<open>
  How \<^verbatim>\<open>turnOn\<close> goes on once the awaited events of \<^verbatim>\<open>syncManually\<close> have
  fired (the changes event with an empty list, then, if there were conflicts, the conflicts
  event with an empty list): the task merges, the view container that was visible before is
  opened again, or else the container of the manual sync view is closed, the task is
  disposed, and auto sync is turned on. If the merge rejects, the task is stopped and
  disposed and the error thrown on. None of these steps touches the preview.
\<close>

definition turnOn_resume ::
  "sync_env \<Rightarrow> bool \<Rightarrow> task \<Rightarrow> workbench_state \<Rightarrow> (error + outcome) \<times> workbench_state" where
  "turnOn_resume se visibleViewContainer t s =
     (case task_merge (task_calls se) t None of
        Inl e \<Rightarrow>
          (case task_stop se t of
             Inl e' \<Rightarrow> (Inl e', log [Task_merge t None, Task_stop t, Task_dispose t] s)
           | Inr u \<Rightarrow> (Inl e, log [Task_merge t None, Task_stop t, Task_dispose t] s))
      | Inr p \<Rightarrow>
          (let s1 = log [Task_merge t None,
                         if visibleViewContainer then OpenViewContainer_previous
                         else CloseViewContainer_manualSync,
                         Task_dispose t] s
           in case autoSync_turnOn se of
                Inl e \<Rightarrow> (Inl e, log [AutoSync_turnOn] s1)
              | Inr u \<Rightarrow>
                  (Inr Completed, log [AutoSync_turnOn, Notification_info_turnedOn] s1)))"

subsection \<open>Observations used in the statements\<close>

text \<open>The value the getter \<^verbatim>\<open>currentSessionId\<close> returns, and the state it leaves.\<close>

definition currentSessionId :: "workbench_state \<Rightarrow> string option" where
  "currentSessionId s = fst (get_currentSessionId s)"

definition loaded :: "workbench_state \<Rightarrow> workbench_state" where
  "loaded s = s\<lparr>cachedCurrentSessionId := Some (currentSessionId s)\<rparr>"

fun is_GetSessions :: "effect \<Rightarrow> bool" where
  "is_GetSessions (GetSessions pid) = True"
| "is_GetSessions e = False"

fun is_UpdateAccount :: "effect \<Rightarrow> bool" where
  "is_UpdateAccount (UpdateAccount v) = True"
| "is_UpdateAccount e = False"

fun is_status_event :: "effect \<Rightarrow> bool" where
  "is_status_event (Fire_onDidChangeAccountStatus st) = True"
| "is_status_event e = False"

text \<open>The calls that belong to the sync that precedes turning on, and to turning on.\<close>

fun is_sync_step :: "effect \<Rightarrow> bool" where
  "is_sync_step ResetLocal = True"
| "is_sync_step CreateManualSyncTask = True"
| "is_sync_step (Progress_report m) = True"
| "is_sync_step (Task_preview t) = True"
| "is_sync_step HasLocalData = True"
| "is_sync_step (Dialog_show title buttons cancelId) = True"
| "is_sync_step (Telemetry name props) = (name = ''sync/firstTimeSync'')"
| "is_sync_step (Task_merge t r) = True"
| "is_sync_step (Task_pull t) = True"
| "is_sync_step (Task_push t) = True"
| "is_sync_step (Task_stop t) = True"
| "is_sync_step (Task_dispose t) = True"
| "is_sync_step (ShowManualSyncViewContext_set b) = True"
| "is_sync_step ExecuteCommand_showSyncedData = True"
| "is_sync_step OpenView_manualSyncView = True"
| "is_sync_step OpenViewContainer_previous = True"
| "is_sync_step CloseViewContainer_manualSync = True"
| "is_sync_step AutoSync_turnOn = True"
| "is_sync_step Notification_info_turnedOn = True"
| "is_sync_step e = False"

subsection \<open>Auxiliary notions for the proofs\<close>

text \<open>
  \<open>fetched s s'\<close>: \<open>s'\<close> is \<open>s\<close> after some \<^verbatim>\<open>getSessions\<close> calls, with the
  session-id cache possibly filled. \<open>token_effects\<close> and \<open>sink_value\<close> name what
  \<^verbatim>\<open>updateToken\<close> logs and passes to the sink. \<open>quiet s s'\<close>: no call of the sync
  that precedes turning on was made between \<open>s\<close> and \<open>s'\<close>, and the preview is untouched.
\<close>

definition fetched :: "workbench_state \<Rightarrow> workbench_state \<Rightarrow> bool" where
  "fetched s s' = (\<exists>gs. list_all is_GetSessions gs \<and> (s' = log gs s \<or> s' = loaded (log gs s)))"

definition token_effects :: "UserDataSyncAccount option \<Rightarrow> effect list" where
  "token_effects cur =
     (case cur of
        None \<Rightarrow> []
      | Some c \<Rightarrow>
          Log_trace ''Preferences Sync: Updating the token for the account'' (accountName c) #
          (case token c of
             Inr t \<Rightarrow> [Log_trace ''Preferences Sync: Token updated for the account'' (accountName c)]
           | Inl e \<Rightarrow> [Log_error e]))"

definition sink_value :: "UserDataSyncAccount option \<Rightarrow> token_value option" where
  "sink_value cur =
     (case cur of
        None \<Rightarrow> None
      | Some c \<Rightarrow>
          (case token c of
             Inr t \<Rightarrow> Some \<lparr>value_token = t,
                             value_authenticationProviderId = authenticationProviderId c\<rparr>
           | Inl e \<Rightarrow> None))"


definition quiet :: "workbench_state \<Rightarrow> workbench_state \<Rightarrow> bool" where
  "quiet s s' = (filter is_sync_step (trace s') = filter is_sync_step (trace s)
                 \<and> userDataSyncPreview s' = userDataSyncPreview s)"


subsection \<open>Example values\<close>

definition github :: IAuthenticationProvider where
  "github = \<lparr>provider_id = ''github'', scopes = [''user:email'']\<rparr>"

definition alice_session :: "error + string \<Rightarrow> AuthenticationSession" where
  "alice_session tok = \<lparr>session_id = ''s1'', account_label = ''alice'', account_id = ''a1'',
     accessToken = tok\<rparr>"

definition fresh_service :: "string option \<Rightarrow> workbench_state" where
  "fresh_service stored = \<lparr>authenticationProviders = [github], accountStatus = Uninitialized,
     all_map = [], cachedCurrentSessionId = None, storedSessionId = stored,
     userDataSyncPreview = new_UserDataSyncPreview [], trace = []\<rparr>"

definition sessions_env :: "AuthenticationSession list \<Rightarrow> refresh_env" where
  "sessions_env xs = \<lparr>getSessions = (\<lambda>pid. Inr (Some xs)), updateAccount = (\<lambda>v. Inr ())\<rparr>"

definition login_env :: pick_env where
  "login_env = \<lparr>doPick_refresh = sessions_env [], quickPick_sorted = (\<lambda>as. as),
     quickPick_accepted = None, login = (\<lambda>pid sc. Inr (alice_session (Inr ''tok''))),
     switch_refresh = sessions_env []\<rparr>"

definition merge_env :: sync_env where
  "merge_env = \<lparr>resetLocal = Inr (), createManualSyncTask = Inr 0,
     task_preview = (\<lambda>t. Inr []), task_manifest_present = (\<lambda>t. False),
     env_hasLocalData = Inr False, dialog_choice = 3, task_calls = quiet_env,
     task_stop = (\<lambda>t. Inr ()), autoSync_turnOn = Inr ()\<rparr>"


section \<open>Properties of UserDataSyncPreview\<close>

subsection \<open>Recomputation of the derived lists\<close>

lemma equals_sameLocal: "equals xs ys sameLocal = (map local xs = map local ys)"
  by (induction xs ys sameLocal rule: equals.induct) (simp_all add: sameLocal_def isEqual_def)

lemma newChanges_cong:
  "conflicts s' = conflicts s \<Longrightarrow> manualSync s' = manualSync s \<Longrightarrow> newChanges s' = newChanges s"
  by (simp add: newChanges_def)

lemma updateChanges_fields [simp]:
  "conflicts (updateChanges s) = conflicts s"
  "manualSync (updateChanges s) = manualSync s"
  by (simp_all add: updateChanges_def)

lemma newChanges_updateChanges [simp]: "newChanges (updateChanges s) = newChanges s"
  by (rule newChanges_cong) simp_all

lemma upToDate_updateChanges: "upToDate (updateChanges s)"
  by (simp add: upToDate_def equals_sameLocal) (simp add: updateChanges_def equals_sameLocal)

lemma updateChanges_fix: "upToDate s \<Longrightarrow> updateChanges s = s"
  by (simp add: upToDate_def updateChanges_def)

lemma updateChanges_idem: "updateChanges (updateChanges s) = updateChanges s"
  by (rule updateChanges_fix) (rule upToDate_updateChanges)

lemma upToDate_trace: "upToDate (s\<lparr>pv_trace := t\<rparr>) = upToDate s"
  by (simp add: upToDate_def newChanges_def)

lemma updateConflicts_idem: "updateConflicts cf (updateConflicts cf s) = updateConflicts cf s"
  by (simp add: updateConflicts_def Let_def equals_sameLocal updateChanges_idem)

lemma set_newChanges:
  "set (newChanges s) =
     {\<lparr>syncResource = sr, local = localResource r, remote = remoteResource r,
        preview = previewResource r, localChange = rp_localChange r,
        remoteChange = rp_remoteChange r\<rparr> | sr sp r m.
        manualSync s = Some m \<and> (sr, sp) \<in> set (ms_preview m) \<and> sr \<noteq> GlobalState
        \<and> r \<in> set (resourcePreviews sp) \<and> keepChange (conflicts s) sr r}"
  by (cases "manualSync s")
     (fastforce simp: newChanges_def toUserDataSyncResourceGroups_def flatten_def)+

lemma changesOk_newChanges: "changesOk (newChanges s)"
  by (auto simp: changesOk_def list_all_iff set_newChanges keepChange_def)

lemma changesOk_updateChanges: "changesOk (changes s) \<Longrightarrow> changesOk (changes (updateChanges s))"
  by (simp add: updateChanges_def changesOk_newChanges)

lemma inv_updateChanges: "changesOk (changes s) \<Longrightarrow> preview_inv (updateChanges s)"
  by (simp add: preview_inv_def upToDate_updateChanges changesOk_updateChanges)

lemma inv_trace: "preview_inv (s\<lparr>pv_trace := t\<rparr>) = preview_inv s"
  by (simp add: preview_inv_def upToDate_trace)

lemma inv_updateConflicts: "preview_inv s \<Longrightarrow> preview_inv (updateConflicts cf s)"
  by (auto simp: updateConflicts_def Let_def preview_inv_def intro!: inv_updateChanges[unfolded preview_inv_def, THEN conjunct1] inv_updateChanges[unfolded preview_inv_def, THEN conjunct2])

lemma inv_setManualSyncPreview: "preview_inv s \<Longrightarrow> preview_inv (setManualSyncPreview t p s)"
  by (simp add: setManualSyncPreview_def preview_inv_def inv_updateChanges[unfolded preview_inv_def])

lemma inv_updatePreview: "preview_inv s \<Longrightarrow> preview_inv (updatePreview p s)"
  by (cases "manualSync s") (simp_all add: updatePreview_def preview_inv_def inv_updateChanges[unfolded preview_inv_def])

lemma inv_accept: "preview_inv s \<Longrightarrow> preview_inv (snd (accept env sr resource content s))"
  by (auto simp: accept_def Let_def inv_trace split: option.splits sum.splits intro!: inv_updatePreview)

lemma inv_merge: "preview_inv s \<Longrightarrow> preview_inv (snd (merge env resource s))"
  by (auto simp: merge_def Let_def inv_trace split: option.splits sum.splits intro!: inv_updatePreview)

lemma inv_pull: "preview_inv s \<Longrightarrow> preview_inv (snd (pull env s))"
  by (auto simp: pull_def Let_def inv_trace split: option.splits sum.splits intro!: inv_updatePreview)

lemma inv_push: "preview_inv s \<Longrightarrow> preview_inv (snd (push env s))"
  by (auto simp: push_def Let_def inv_trace split: option.splits sum.splits intro!: inv_updatePreview)

lemma inv_step: "preview_inv s \<Longrightarrow> preview_inv (step op s)"
  by (cases op) (simp_all add: inv_setManualSyncPreview inv_accept inv_merge inv_pull inv_push inv_updateConflicts)

lemma inv_fields: "preview_inv preview_fields"
  by (simp add: preview_inv_def upToDate_def changesOk_def preview_fields_def newChanges_def
      toUserDataSyncResourceGroups_def flatten_def)

lemma inv_new: "preview_inv (new_UserDataSyncPreview cf)"
  by (simp add: new_UserDataSyncPreview_def inv_updateConflicts inv_fields)

lemma inv_run: "preview_inv s \<Longrightarrow> preview_inv (run ops s)"
  unfolding run_def by (induction ops arbitrary: s) (simp_all add: inv_step)

lemma inv_reachable: "preview_inv (run ops (new_UserDataSyncPreview cf))"
  by (rule inv_run) (rule inv_new)

lemmas ex_defs = settings_rp_def settings_group_def settings_preview_def quiet_env_def
lemmas pv_defs = run_def new_UserDataSyncPreview_def preview_fields_def updateConflicts_def
  updateChanges_def newChanges_def toUserDataSyncResourceGroups_def flatten_def sameLocal_def
  isEqual_def keepChange_def setManualSyncPreview_def updatePreview_def accept_def merge_def
  pull_def push_def Let_def

lemma st_installed:
  "run [Op_setManualSyncPreview 0 (settings_preview Settings)] (new_UserDataSyncPreview []) =
     \<lparr>changes = [settings_group Settings], conflicts = [],
      manualSync = Some \<lparr>ms_preview = settings_preview Settings, ms_task = 0\<rparr>,
      pv_trace = [Fire_onDidChangeChanges [settings_group Settings]]\<rparr>"
  by (simp add: pv_defs ex_defs)

lemma st_clash:
  "run [Op_setManualSyncPreview 0 (settings_preview Keybindings)]
       (new_UserDataSyncPreview [(Settings, [settings_rp])]) =
     \<lparr>changes = [settings_group Keybindings], conflicts = [settings_group Settings],
      manualSync = Some \<lparr>ms_preview = settings_preview Keybindings, ms_task = 0\<rparr>,
      pv_trace = [Fire_onDidChangeConflicts [settings_group Settings],
                  Fire_onDidChangeChanges [settings_group Keybindings]]\<rparr>"
  by (simp add: pv_defs ex_defs)


lemma stale_kind_example:
  "run [Op_setManualSyncPreview 0 (settings_preview Settings),
        Op_merge (quiet_env\<lparr>task_merge := (\<lambda>t u. Inr (settings_preview Keybindings))\<rparr>) None,
        Op_updateConflicts [(Settings, [settings_rp])]]
       (new_UserDataSyncPreview []) =
     \<lparr>changes = [settings_group Settings], conflicts = [settings_group Settings],
      manualSync = Some \<lparr>ms_preview = settings_preview Keybindings, ms_task = 0\<rparr>,
      pv_trace = [Fire_onDidChangeChanges [settings_group Settings], Task_merge 0 None,
                  Fire_onDidChangeConflicts [settings_group Settings]]\<rparr>"
  by (simp add: pv_defs ex_defs)


lemma kinded_toGroups: "kinded_feed k cf \<Longrightarrow> kinded_groups k (toUserDataSyncResourceGroups cf)"
  by (auto simp: kinded_feed_def kinded_groups_def toUserDataSyncResourceGroups_def flatten_def
      list_all_iff)

lemma kinded_newChanges:
  "(case manualSync s of None \<Rightarrow> True | Some m \<Rightarrow> kinded_preview k (ms_preview m)) \<Longrightarrow>
   kinded_groups k (newChanges s)"
  by (cases "manualSync s")
     (auto simp: kinded_groups_def kinded_preview_def list_all_iff set_newChanges)

lemma kinded_updateChanges: "kinded_state k s \<Longrightarrow> kinded_state k (updateChanges s)"
  by (simp add: kinded_state_def updateChanges_def kinded_newChanges)

lemma kinded_trace: "kinded_state k (s\<lparr>pv_trace := t\<rparr>) = kinded_state k s"
  by (simp add: kinded_state_def)

lemma kinded_updateConflicts:
  "kinded_state k s \<Longrightarrow> kinded_feed k cf \<Longrightarrow> kinded_state k (updateConflicts cf s)"
  by (auto simp: updateConflicts_def Let_def intro!: kinded_updateChanges)
     (simp_all add: kinded_state_def kinded_toGroups)

lemma kinded_updatePreview:
  "kinded_state k s \<Longrightarrow> kinded_preview k p \<Longrightarrow> kinded_state k (updatePreview p s)"
  by (cases "manualSync s")
     (auto simp: updatePreview_def intro!: kinded_updateChanges, simp add: kinded_state_def)

lemma kinded_setManualSyncPreview:
  "kinded_state k s \<Longrightarrow> kinded_preview k p \<Longrightarrow> kinded_state k (setManualSyncPreview t p s)"
  unfolding setManualSyncPreview_def
  by (rule kinded_updateChanges) (simp add: kinded_state_def)

lemma kinded_step: "kinded_state k s \<Longrightarrow> kinded_op k op \<Longrightarrow> kinded_state k (step op s)"
proof (cases op)
  case (Op_setManualSyncPreview t p)
  assume "kinded_state k s" "kinded_op k op"
  then show ?thesis using Op_setManualSyncPreview by (simp add: kinded_setManualSyncPreview)
next
  case (Op_accept env sr resource content)
  assume "kinded_state k s" "kinded_op k op"
  then show ?thesis using Op_accept
    by (auto simp: accept_def Let_def kinded_trace split: option.splits sum.splits
        intro!: kinded_updatePreview)
next
  case (Op_merge env resource)
  assume "kinded_state k s" "kinded_op k op"
  then show ?thesis using Op_merge
    by (auto simp: merge_def Let_def kinded_trace split: option.splits sum.splits
        intro!: kinded_updatePreview)
next
  case (Op_pull env)
  assume "kinded_state k s" "kinded_op k op"
  then show ?thesis using Op_pull
    by (auto simp: pull_def Let_def kinded_trace split: option.splits sum.splits
        intro!: kinded_updatePreview) (simp add: kinded_preview_def)
next
  case (Op_push env)
  assume "kinded_state k s" "kinded_op k op"
  then show ?thesis using Op_push
    by (auto simp: push_def Let_def kinded_trace split: option.splits sum.splits
        intro!: kinded_updatePreview) (simp add: kinded_preview_def)
next
  case (Op_updateConflicts cf)
  assume "kinded_state k s" "kinded_op k op"
  then show ?thesis using Op_updateConflicts by (simp add: kinded_updateConflicts)
qed

lemma kinded_run: "kinded_state k s \<Longrightarrow> list_all (kinded_op k) ops \<Longrightarrow> kinded_state k (run ops s)"
  unfolding run_def by (induction ops arbitrary: s) (simp_all add: kinded_step)

lemma kinded_new: "kinded_feed k cf \<Longrightarrow> kinded_state k (new_UserDataSyncPreview cf)"
  unfolding new_UserDataSyncPreview_def
  by (rule kinded_updateConflicts) (simp_all add: kinded_state_def kinded_groups_def preview_fields_def)

lemma kinded_disjoint:
  assumes k: "kinded_state k s" and i: "preview_inv s"
    and g: "g \<in> set (changes s)" and c: "c \<in> set (conflicts s)"
  shows "local g \<noteq> local c"
proof
  assume e: "local g = local c"
  have "map local (changes s) = map local (newChanges s)"
    using i by (simp add: preview_inv_def upToDate_def equals_sameLocal)
  then have "local g \<in> local ` set (newChanges s)" using g by (metis image_eqI set_map)
  then obtain g' where g': "g' \<in> set (newChanges s)" "local g' = local g" by auto
  from g'(1) obtain sr sp r m where h: "manualSync s = Some m" "(sr, sp) \<in> set (ms_preview m)"
      "r \<in> set (resourcePreviews sp)" "keepChange (conflicts s) sr r"
      "g' = \<lparr>syncResource = sr, local = localResource r, remote = remoteResource r,
        preview = previewResource r, localChange = rp_localChange r,
        remoteChange = rp_remoteChange r\<rparr>"
    unfolding set_newChanges by blast
  have u: "localResource r = local c" using h(5) g'(2) e by simp
  have "k (localResource r) = sr"
    using k h(1,2,3) by (auto simp: kinded_state_def kinded_preview_def list_all_iff)
  moreover have "k (local c) = syncResource c"
    using k c by (auto simp: kinded_state_def kinded_groups_def list_all_iff)
  ultimately have "syncResource c = sr" using u by simp
  with h(4) c u show False
    by (auto simp: keepChange_def list_ex_iff isEqual_def)
qed

text \<open>
  Claim C3, as amended. In every state reached from the constructor by any sequence of
  \<^verbatim>\<open>setManualSyncPreview\<close>, \<^verbatim>\<open>accept\<close>, \<^verbatim>\<open>merge\<close>, \<^verbatim>\<open>pull\<close>,
  \<^verbatim>\<open>push\<close> and conflict-feed updates: no entry of \<open>changes\<close> has the kind
  \<open>GlobalState\<close>, none has both changes \<open>None\<close>, and the local URIs of \<open>changes\<close> are, in
  order, those of the list recomputed from the stored preview and the stored conflicts. So
  every local URI of \<open>changes\<close> belongs to a preview entry of the active session that is not
  of kind \<open>GlobalState\<close>, is not merged, has a local or a remote change, and has no entry in
  \<open>conflicts\<close> with the same resource kind and the same local URI. The source compares a
  conflict by kind and local URI together, and it keeps the stored list whenever the
  recomputed one has the same local URIs, so an entry of \<open>changes\<close> may share its local
  URI with an entry of \<open>conflicts\<close> (\<open>st_clash\<close>, \<open>stale_kind_example\<close>). When every
  local URI occurs under one resource kind only, in the feeds and in the previews, no entry
  of \<open>changes\<close> has the local URI of an entry of \<open>conflicts\<close>.
\<close>

theorem changes_invariant:
  "(\<forall>g \<in> set (changes (run ops (new_UserDataSyncPreview cf))).
       syncResource g \<noteq> GlobalState
       \<and> (localChange g \<noteq> Change_None \<or> remoteChange g \<noteq> Change_None))
   \<and> map local (changes (run ops (new_UserDataSyncPreview cf)))
       = map local (newChanges (run ops (new_UserDataSyncPreview cf)))
   \<and> (\<forall>u \<in> set (map local (changes (run ops (new_UserDataSyncPreview cf)))).
        \<exists>m sr sp r. manualSync (run ops (new_UserDataSyncPreview cf)) = Some m
          \<and> (sr, sp) \<in> set (ms_preview m) \<and> sr \<noteq> GlobalState
          \<and> r \<in> set (resourcePreviews sp) \<and> localResource r = u
          \<and> \<not> merged r
          \<and> (rp_localChange r \<noteq> Change_None \<or> rp_remoteChange r \<noteq> Change_None)
          \<and> \<not> (\<exists>c \<in> set (conflicts (run ops (new_UserDataSyncPreview cf))).
                  syncResource c = sr \<and> local c = u))
   \<and> (\<forall>k. kinded_feed k cf \<and> list_all (kinded_op k) ops \<longrightarrow>
        (\<forall>g \<in> set (changes (run ops (new_UserDataSyncPreview cf))).
         \<forall>c \<in> set (conflicts (run ops (new_UserDataSyncPreview cf))).
           local g \<noteq> local c))"
proof -
  define s where "s = run ops (new_UserDataSyncPreview cf)"
  have i: "preview_inv s" unfolding s_def by (rule inv_reachable)
  have ok: "changesOk (changes s)" using i by (simp add: preview_inv_def)
  have eq: "map local (changes s) = map local (newChanges s)"
    using i by (simp add: preview_inv_def upToDate_def equals_sameLocal)
  have a: "\<forall>g \<in> set (changes s). syncResource g \<noteq> GlobalState
       \<and> (localChange g \<noteq> Change_None \<or> remoteChange g \<noteq> Change_None)"
    using ok by (simp add: changesOk_def list_all_iff)
  have c: "\<exists>m sr sp r. manualSync s = Some m
          \<and> (sr, sp) \<in> set (ms_preview m) \<and> sr \<noteq> GlobalState
          \<and> r \<in> set (resourcePreviews sp) \<and> localResource r = u
          \<and> \<not> merged r
          \<and> (rp_localChange r \<noteq> Change_None \<or> rp_remoteChange r \<noteq> Change_None)
          \<and> \<not> (\<exists>c \<in> set (conflicts s). syncResource c = sr \<and> local c = u)"
    if "u \<in> set (map local (changes s))" for u
  proof -
    from that eq obtain g where g: "g \<in> set (newChanges s)" "local g = u" by auto
    from g(1) obtain sr sp r m where h: "manualSync s = Some m" "(sr, sp) \<in> set (ms_preview m)"
      "sr \<noteq> GlobalState" "r \<in> set (resourcePreviews sp)" "keepChange (conflicts s) sr r"
      "g = \<lparr>syncResource = sr, local = localResource r, remote = remoteResource r,
        preview = previewResource r, localChange = rp_localChange r,
        remoteChange = rp_remoteChange r\<rparr>"
      unfolding set_newChanges by blast
    have "localResource r = u" using h(6) g(2) by simp
    with h show ?thesis
      unfolding keepChange_def list_ex_iff isEqual_def by blast
  qed
  have d: "\<forall>g \<in> set (changes s). \<forall>c \<in> set (conflicts s). local g \<noteq> local c"
    if "kinded_feed k cf \<and> list_all (kinded_op k) ops" for k
  proof -
    have "kinded_state k s"
      unfolding s_def using that by (simp add: kinded_run kinded_new)
    then have "local g \<noteq> local c" if "g \<in> set (changes s)" "c \<in> set (conflicts s)" for g c
      using i that by (rule kinded_disjoint)
    then show ?thesis by simp
  qed
  have cc: "\<forall>u \<in> set (map local (changes s)).
        \<exists>m sr sp r. manualSync s = Some m
          \<and> (sr, sp) \<in> set (ms_preview m) \<and> sr \<noteq> GlobalState
          \<and> r \<in> set (resourcePreviews sp) \<and> localResource r = u
          \<and> \<not> merged r
          \<and> (rp_localChange r \<noteq> Change_None \<or> rp_remoteChange r \<noteq> Change_None)
          \<and> \<not> (\<exists>c \<in> set (conflicts s). syncResource c = sr \<and> local c = u)"
    using c by blast
  have dd: "\<forall>k. kinded_feed k cf \<and> list_all (kinded_op k) ops \<longrightarrow>
        (\<forall>g \<in> set (changes s). \<forall>c \<in> set (conflicts s). local g \<noteq> local c)"
    using d by blast
  show ?thesis
    unfolding s_def [symmetric] by (intro conjI) (fact a, fact eq, fact cc, fact dd)
qed


lemma st_conflicting:
  "run [Op_setManualSyncPreview 0 both_previews, Op_updateConflicts [(Settings, [settings_rp])]]
       (new_UserDataSyncPreview []) =
     \<lparr>changes = [keybindings_group], conflicts = [settings_group Settings],
      manualSync = Some \<lparr>ms_preview = both_previews, ms_task = 0\<rparr>,
      pv_trace = [Fire_onDidChangeChanges [settings_group Settings, keybindings_group],
                  Fire_onDidChangeConflicts [settings_group Settings],
                  Fire_onDidChangeChanges [keybindings_group]]\<rparr>"
  by (simp add: pv_defs ex_defs keybindings_rp_def keybindings_group_def both_previews_def)

theorem changes_invariant_witness:
  "changes (run [Op_setManualSyncPreview 0 both_previews,
                 Op_updateConflicts [(Settings, [settings_rp])]] (new_UserDataSyncPreview []))
     = [keybindings_group]
   \<and> conflicts (run [Op_setManualSyncPreview 0 both_previews,
                 Op_updateConflicts [(Settings, [settings_rp])]] (new_UserDataSyncPreview []))
     = [settings_group Settings]
   \<and> syncResource keybindings_group = Keybindings
   \<and> remoteChange keybindings_group = Change_Added
   \<and> local keybindings_group = ''local/keybindings.json''
   \<and> local (settings_group Settings) = ''local/settings.json''
   \<and> map local (newChanges (run [Op_setManualSyncPreview 0 both_previews,
                 Op_updateConflicts [(Settings, [settings_rp])]] (new_UserDataSyncPreview [])))
     = [''local/keybindings.json'']"
proof -
  have k: "kinded_feed kind_of_example []"
    "list_all (kinded_op kind_of_example)
       [Op_setManualSyncPreview 0 both_previews, Op_updateConflicts [(Settings, [settings_rp])]]"
    by (simp_all add: kinded_feed_def kinded_preview_def kind_of_example_def both_previews_def
        settings_rp_def keybindings_rp_def)
  have g: "syncResource keybindings_group = Keybindings"
    "remoteChange keybindings_group = Change_Added"
    "local keybindings_group = ''local/keybindings.json''"
    "local (settings_group Settings) = ''local/settings.json''"
    by (simp_all add: keybindings_group_def settings_group_def)
  show ?thesis
    using changes_invariant [of "[Op_setManualSyncPreview 0 both_previews,
        Op_updateConflicts [(Settings, [settings_rp])]]" "[]"] k g
    by (simp add: st_conflicting)
qed

text \<open>
  The claim as first stated fails: a conflict of kind \<open>Settings\<close> does not remove a
  preview entry of kind \<open>Keybindings\<close> with the same local URI from \<open>changes\<close>.
\<close>

theorem changes_share_local_with_conflicts_counterexample:
  "map local (changes (run [Op_setManualSyncPreview 0 (settings_preview Keybindings)]
       (new_UserDataSyncPreview [(Settings, [settings_rp])]))) = [''local/settings.json'']
   \<and> map local (conflicts (run [Op_setManualSyncPreview 0 (settings_preview Keybindings)]
       (new_UserDataSyncPreview [(Settings, [settings_rp])]))) = [''local/settings.json'']"
  by (simp add: st_clash) (simp add: settings_group_def)


subsection \<open>Operations without a session\<close>

text \<open>
  Before a session is installed, \<^verbatim>\<open>merge\<close>, \<^verbatim>\<open>pull\<close> and \<^verbatim>\<open>push\<close> each
  throw the error of their guard; the task is not called and the state is unchanged.
\<close>

lemma no_session_fails:
  "manualSync s = None \<Longrightarrow>
     merge env resource s = (Inl (Error ''Can merge only while syncing manually''), s)
     \<and> pull env s = (Inl (Error ''Can pull only while syncing manually''), s)
     \<and> push env s = (Inl (Error ''Can push only while syncing manually''), s)"
  by (simp add: merge_def pull_def push_def)


text \<open>
  \<^verbatim>\<open>manualSync\<close> is assigned by \<^verbatim>\<open>setManualSyncPreview\<close> only and no operation
  clears it: after a run it is undefined exactly when the run installed no session.
\<close>

lemma manualSync_updateChanges_None: "(manualSync (updateChanges s) = None) = (manualSync s = None)"
  by simp







lemma st_pulled:
  "run [Op_setManualSyncPreview 0 (settings_preview Settings), Op_pull quiet_env]
       (new_UserDataSyncPreview []) =
     \<lparr>changes = [], conflicts = [],
      manualSync = Some \<lparr>ms_preview = [], ms_task = 0\<rparr>,
      pv_trace = [Fire_onDidChangeChanges [settings_group Settings], Task_pull 0,
                  Fire_onDidChangeChanges []]\<rparr>"
  by (simp add: pv_defs ex_defs)


text \<open>
  Claim C4. The claim asks that \<^verbatim>\<open>merge\<close>, \<^verbatim>\<open>pull\<close> and \<^verbatim>\<open>push\<close> fail
  with the invalid-state error whenever no manual session is active. The guards of the
  source test \<^verbatim>\<open>manualSync\<close>, which stays set once a session was installed. After a
  session was installed and pulled (the preview is empty, the changes event has fired with
  an empty list, so the service merges, disposes the task and finishes), each of the three
  calls passes its guard, calls the finished task and returns normally instead of failing.
\<close>

theorem finished_session_still_delegates:
  "merge quiet_env None
     (run [Op_setManualSyncPreview 0 (settings_preview Settings), Op_pull quiet_env]
        (new_UserDataSyncPreview [])) =
     (Inr (), \<lparr>changes = [], conflicts = [],
        manualSync = Some \<lparr>ms_preview = [], ms_task = 0\<rparr>,
        pv_trace = [Fire_onDidChangeChanges [settings_group Settings], Task_pull 0,
                    Fire_onDidChangeChanges [], Task_merge 0 None]\<rparr>)
   \<and> pull quiet_env
     (run [Op_setManualSyncPreview 0 (settings_preview Settings), Op_pull quiet_env]
        (new_UserDataSyncPreview [])) =
     (Inr (), \<lparr>changes = [], conflicts = [],
        manualSync = Some \<lparr>ms_preview = [], ms_task = 0\<rparr>,
        pv_trace = [Fire_onDidChangeChanges [settings_group Settings], Task_pull 0,
                    Fire_onDidChangeChanges [], Task_pull 0]\<rparr>)
   \<and> push quiet_env
     (run [Op_setManualSyncPreview 0 (settings_preview Settings), Op_pull quiet_env]
        (new_UserDataSyncPreview [])) =
     (Inr (), \<lparr>changes = [], conflicts = [],
        manualSync = Some \<lparr>ms_preview = [], ms_task = 0\<rparr>,
        pv_trace = [Fire_onDidChangeChanges [settings_group Settings], Task_pull 0,
                    Fire_onDidChangeChanges [], Task_push 0]\<rparr>)"
  by (simp add: st_pulled) (simp add: pv_defs ex_defs)


subsection \<open>accept\<close>










subsection \<open>Change events\<close>

lemma updateChanges_trace:
  "pv_trace (updateChanges s) = pv_trace s @
     (if equals (newChanges s) (changes s) sameLocal then []
      else [Fire_onDidChangeChanges (newChanges s)])"
  by (simp add: updateChanges_def)

lemma updateConflicts_conflicts_events:
  "filter is_conflicts_event (pv_trace (updateConflicts cf s)) =
     filter is_conflicts_event (pv_trace s) @
       (if equals (toUserDataSyncResourceGroups cf) (conflicts s) sameLocal then []
        else [Fire_onDidChangeConflicts (toUserDataSyncResourceGroups cf)])"
  by (simp add: updateConflicts_def Let_def updateChanges_trace)

lemma manualSync_same: "manualSync y = v \<Longrightarrow> y\<lparr>manualSync := v\<rparr> = y"
  by simp

lemma setManualSyncPreview_idem:
  "setManualSyncPreview t p (setManualSyncPreview t p s) = setManualSyncPreview t p s"
  by (simp add: setManualSyncPreview_def manualSync_same updateChanges_idem)

lemma updatePreview_idem: "updatePreview p (updatePreview p s) = updatePreview p s"
proof (cases "manualSync s")
  case None
  then show ?thesis by (simp add: updatePreview_def)
next
  case (Some m)
  then show ?thesis by (simp add: updatePreview_def manualSync_same updateChanges_idem)
qed


text \<open>
  Claim C8. Recomputing a second time from the same inputs changes nothing and fires nothing:
  \<^verbatim>\<open>updateChanges\<close>, \<^verbatim>\<open>updateConflicts\<close> with the same feed,
  \<^verbatim>\<open>updatePreview\<close> and \<^verbatim>\<open>setManualSyncPreview\<close> with the same preview are
  idempotent on the whole state, trace included. The changes event is fired exactly when the
  recomputed list differs from the stored one, and the conflicts event exactly when the new
  conflicts differ from the stored ones, where two lists differ unless they have the same
  local URIs in the same order.
\<close>

theorem recompute_fires_once:
  "updateChanges (updateChanges s) = updateChanges s
   \<and> updateConflicts cf (updateConflicts cf s) = updateConflicts cf s
   \<and> updatePreview p (updatePreview p s) = updatePreview p s
   \<and> setManualSyncPreview t p (setManualSyncPreview t p s) = setManualSyncPreview t p s
   \<and> pv_trace (updateChanges s) = pv_trace s @
       (if equals (newChanges s) (changes s) sameLocal then []
        else [Fire_onDidChangeChanges (newChanges s)])
   \<and> filter is_conflicts_event (pv_trace (updateConflicts cf s)) =
       filter is_conflicts_event (pv_trace s) @
         (if equals (toUserDataSyncResourceGroups cf) (conflicts s) sameLocal then []
          else [Fire_onDidChangeConflicts (toUserDataSyncResourceGroups cf)])
   \<and> equals xs ys sameLocal = (map local xs = map local ys)"
  by (simp only: updateChanges_idem updateConflicts_idem updatePreview_idem
      setManualSyncPreview_idem updateChanges_trace updateConflicts_conflicts_events
      equals_sameLocal simp_thms)

theorem recompute_fires_once_witness:
  "pv_trace (updateConflicts [(Settings, [settings_rp])] preview_fields)
     = [Fire_onDidChangeConflicts [settings_group Settings]]
   \<and> pv_trace (updateConflicts [(Settings, [settings_rp])]
        (updateConflicts [(Settings, [settings_rp])] preview_fields))
     = [Fire_onDidChangeConflicts [settings_group Settings]]
   \<and> pv_trace (setManualSyncPreview 0 (settings_preview Settings) preview_fields)
     = [Fire_onDidChangeChanges [settings_group Settings]]
   \<and> pv_trace (setManualSyncPreview 0 (settings_preview Settings)
        (setManualSyncPreview 0 (settings_preview Settings) preview_fields))
     = [Fire_onDidChangeChanges [settings_group Settings]]"
proof -
  have a: "pv_trace (updateConflicts [(Settings, [settings_rp])] preview_fields)
     = [Fire_onDidChangeConflicts [settings_group Settings]]"
    by (simp add: pv_defs ex_defs)
  have b: "pv_trace (setManualSyncPreview 0 (settings_preview Settings) preview_fields)
     = [Fire_onDidChangeChanges [settings_group Settings]]"
    by (simp add: pv_defs ex_defs)
  show ?thesis
    using recompute_fires_once [of preview_fields "[(Settings, [settings_rp])]"
        "settings_preview Settings" 0 "[]" "[]"] a b
    by simp
qed

subsection \<open>Decorations\<close>

lemma find_Some_mem: "find P xs = Some x \<Longrightarrow> x \<in> set xs \<and> P x"
  by (induction xs) (auto split: if_splits)

lemma changeResource_None:
  "(changeResource resource s = None) =
     (\<forall>d \<in> set (changes s) \<union> set (conflicts s). remote d \<noteq> resource)"
  by (auto simp: changeResource_def isEqual_def find_None_iff split: option.splits
      dest: find_Some_mem)

lemma changeResource_Some:
  "changeResource resource s = Some c \<Longrightarrow>
     remote c = resource \<and>
     (find (\<lambda>d. remote d = resource) (changes s) = Some c
      \<or> (\<forall>d \<in> set (changes s). remote d \<noteq> resource)
         \<and> find (\<lambda>d. remote d = resource) (conflicts s) = Some c)"
  by (auto simp: changeResource_def isEqual_def find_None_iff split: option.splits
      dest: find_Some_mem)

lemma decoration_M:
  "changeResource resource s = Some c \<Longrightarrow>
   localChange c = Change_Modified \<or> remoteChange c = Change_Modified \<Longrightarrow>
   provideDecorations resource s = Some \<lparr>letter = ''M''\<rparr>"
  by (simp add: provideDecorations_def)

lemma decoration_A:
  "changeResource resource s = Some c \<Longrightarrow>
   localChange c \<noteq> Change_Modified \<Longrightarrow> remoteChange c \<noteq> Change_Modified \<Longrightarrow>
   localChange c \<in> {Change_Added, Change_Deleted}
     \<or> remoteChange c \<in> {Change_Added, Change_Deleted} \<Longrightarrow>
   provideDecorations resource s = Some \<lparr>letter = ''A''\<rparr>"
  by (simp add: provideDecorations_def)

lemma decoration_none:
  "changeResource resource s = Some c \<Longrightarrow>
   localChange c = Change_None \<Longrightarrow> remoteChange c = Change_None \<Longrightarrow>
   provideDecorations resource s = None"
  by (simp add: provideDecorations_def)


text \<open>
  Claim C9. The lookup takes the first entry of \<open>changes\<close> whose remote URI is the given
  one, or else the first such entry of \<open>conflicts\<close>. With no such entry there is no marker.
  The rules apply in the order of the claim: an entry that is \<open>Modified\<close> on either side
  gives the marker \<open>M\<close>; failing that, an entry that is \<open>Added\<close> or \<open>Deleted\<close> on either
  side gives the marker \<open>A\<close>; an entry with no change on either side gives no marker. The
  result is an optional marker, so a lookup returns at most one.
\<close>

theorem decoration_lookup:
  "(changeResource resource s = None \<longleftrightarrow>
      (\<forall>d \<in> set (changes s) \<union> set (conflicts s). remote d \<noteq> resource))
   \<and> (changeResource resource s = None \<longrightarrow> provideDecorations resource s = None)
   \<and> (\<forall>c. changeResource resource s = Some c \<longrightarrow>
        remote c = resource
        \<and> (find (\<lambda>d. remote d = resource) (changes s) = Some c
           \<or> (\<forall>d \<in> set (changes s). remote d \<noteq> resource)
              \<and> find (\<lambda>d. remote d = resource) (conflicts s) = Some c)
        \<and> (localChange c = Change_Modified \<or> remoteChange c = Change_Modified \<longrightarrow>
             provideDecorations resource s = Some \<lparr>letter = ''M''\<rparr>)
        \<and> (localChange c \<noteq> Change_Modified \<and> remoteChange c \<noteq> Change_Modified
           \<and> (localChange c \<in> {Change_Added, Change_Deleted}
              \<or> remoteChange c \<in> {Change_Added, Change_Deleted}) \<longrightarrow>
             provideDecorations resource s = Some \<lparr>letter = ''A''\<rparr>)
        \<and> (localChange c = Change_None \<and> remoteChange c = Change_None \<longrightarrow>
             provideDecorations resource s = None))"
proof (intro conjI allI impI)
  show "(changeResource resource s = None) =
      (\<forall>d \<in> set (changes s) \<union> set (conflicts s). remote d \<noteq> resource)"
    by (rule changeResource_None)
next
  assume "changeResource resource s = None"
  then show "provideDecorations resource s = None" by (simp add: provideDecorations_def)
next
  fix c assume h: "changeResource resource s = Some c"
  from changeResource_Some [OF h] show "remote c = resource" by simp
  from changeResource_Some [OF h]
  show "find (\<lambda>d. remote d = resource) (changes s) = Some c
           \<or> (\<forall>d \<in> set (changes s). remote d \<noteq> resource)
              \<and> find (\<lambda>d. remote d = resource) (conflicts s) = Some c" by simp
  show "provideDecorations resource s = Some \<lparr>letter = ''M''\<rparr>"
    if "localChange c = Change_Modified \<or> remoteChange c = Change_Modified"
    using h that by (rule decoration_M)
  show "provideDecorations resource s = Some \<lparr>letter = ''A''\<rparr>"
    if "localChange c \<noteq> Change_Modified \<and> remoteChange c \<noteq> Change_Modified
           \<and> (localChange c \<in> {Change_Added, Change_Deleted}
              \<or> remoteChange c \<in> {Change_Added, Change_Deleted})"
    using h that by (simp add: decoration_A)
  show "provideDecorations resource s = None"
    if "localChange c = Change_None \<and> remoteChange c = Change_None"
    using h that by (simp add: decoration_none)
qed

theorem decoration_lookup_witness:
  "changeResource ''remote/settings.json''
     (run [Op_setManualSyncPreview 0 (settings_preview Settings)] (new_UserDataSyncPreview []))
     = Some (settings_group Settings)
   \<and> localChange (settings_group Settings) = Change_Modified
   \<and> provideDecorations ''remote/settings.json''
     (run [Op_setManualSyncPreview 0 (settings_preview Settings)] (new_UserDataSyncPreview []))
     = Some \<lparr>letter = ''M''\<rparr>
   \<and> changeResource ''remote/keybindings.json''
     (run [Op_setManualSyncPreview 0 (settings_preview Settings)] (new_UserDataSyncPreview []))
     = None
   \<and> provideDecorations ''remote/keybindings.json''
     (run [Op_setManualSyncPreview 0 (settings_preview Settings)] (new_UserDataSyncPreview []))
     = None"
proof -
  have a: "changeResource ''remote/settings.json''
     (run [Op_setManualSyncPreview 0 (settings_preview Settings)] (new_UserDataSyncPreview []))
     = Some (settings_group Settings)"
    by (simp add: st_installed changeResource_def isEqual_def) (simp add: settings_group_def)
  have b: "changeResource ''remote/keybindings.json''
     (run [Op_setManualSyncPreview 0 (settings_preview Settings)] (new_UserDataSyncPreview []))
     = None"
    by (simp add: st_installed changeResource_def isEqual_def) (simp add: settings_group_def)
  have c: "localChange (settings_group Settings) = Change_Modified"
    by (simp add: settings_group_def)
  show ?thesis
    using a b c
      decoration_lookup [of "''remote/settings.json''"
        "run [Op_setManualSyncPreview 0 (settings_preview Settings)] (new_UserDataSyncPreview [])"]
      decoration_lookup [of "''remote/keybindings.json''"
        "run [Op_setManualSyncPreview 0 (settings_preview Settings)] (new_UserDataSyncPreview [])"]
    by simp
qed

text \<open>
  The order of the rules at work: an entry added locally and modified remotely gets \<open>M\<close>.
\<close>

lemma added_locally_modified_remotely:
  "map localChange (changes (run [Op_setManualSyncPreview 0
        [(Settings, \<lparr>isLastSyncFromCurrentMachine = False,
                      resourcePreviews = [added_modified_rp]\<rparr>)]]
      (new_UserDataSyncPreview []))) = [Change_Added]
   \<and> provideDecorations ''remote/settings.json''
        (run [Op_setManualSyncPreview 0
           [(Settings, \<lparr>isLastSyncFromCurrentMachine = False,
                         resourcePreviews = [added_modified_rp]\<rparr>)]]
         (new_UserDataSyncPreview []))
      = Some \<lparr>letter = ''M''\<rparr>"
  by (simp add: pv_defs added_modified_rp_def provideDecorations_def changeResource_def)


section \<open>Properties of UserDataSyncWorkbenchService\<close>

subsection \<open>First-time sync decision\<close>

text \<open>
  Claim C1. For all four inputs, \<^verbatim>\<open>getFirstTimeSyncAction\<close> returns \<open>merge\<close> and
  makes no call at all (no dialog, no telemetry) when there is no local data, or no remote
  data, or no change, or the last sync was from this machine; the dialog is shown exactly in
  the remaining case.
\<close>

theorem first_time_sync_merge_without_prompt:
  "(\<not> hasLocalData \<or> \<not> hasRemoteData \<or> \<not> hasChanges \<or> lastFromHere \<longrightarrow>
      getFirstTimeSyncAction hasRemoteData hasLocalData hasChanges lastFromHere choice
        = (Inr Merge, []))
   \<and> (list_ex is_dialog
        (snd (getFirstTimeSyncAction hasRemoteData hasLocalData hasChanges lastFromHere choice))
      \<longleftrightarrow> hasRemoteData \<and> hasLocalData \<and> hasChanges \<and> \<not> lastFromHere)"
  by (simp add: getFirstTimeSyncAction_def Let_def)

theorem first_time_sync_merge_without_prompt_witness:
  "getFirstTimeSyncAction True False True False 0 = (Inr Merge, [])
   \<and> getFirstTimeSyncAction False True True False 0 = (Inr Merge, [])
   \<and> getFirstTimeSyncAction True True False False 0 = (Inr Merge, [])
   \<and> getFirstTimeSyncAction True True True True 0 = (Inr Merge, [])
   \<and> list_ex is_dialog (snd (getFirstTimeSyncAction True True True False 0))"
  using first_time_sync_merge_without_prompt [of False True True False 0]
    first_time_sync_merge_without_prompt [of True False True False 0]
    first_time_sync_merge_without_prompt [of True True False False 0]
    first_time_sync_merge_without_prompt [of True True True True 0]
    first_time_sync_merge_without_prompt [of True True True False 0]
  by simp


text \<open>
  Claim C2. When the dialog is shown, choice 0 gives \<open>manual\<close>, 1 gives \<open>merge\<close>, 2 gives
  \<open>pull\<close>, and any other choice (Cancel is 3) throws \<^verbatim>\<open>canceled()\<close>; after the
  dialog exactly one telemetry event \<^verbatim>\<open>sync/firstTimeSync\<close> is logged, with the
  action \<open>manual\<close>, \<open>merge\<close>, \<open>pull\<close> or \<open>cancelled\<close> respectively.
\<close>

theorem first_time_sync_prompt_outcomes:
  "getFirstTimeSyncAction True True True False choice =
     (if choice = 0 then Inr Manual else if choice = 1 then Inr Merge
      else if choice = 2 then Inr Pull else Inl Canceled,
      [Dialog_show ''Replace or Merge''
         [''Sync Manually'', ''Merge'', ''Replace Local'', ''Cancel''] 3,
       Telemetry ''sync/firstTimeSync''
         [(''action'', if choice = 0 then ''manual'' else if choice = 1 then ''merge''
                       else if choice = 2 then ''pull'' else ''cancelled'')]])"
  by (simp add: getFirstTimeSyncAction_def Let_def)

theorem first_time_sync_prompt_outcomes_witness:
  "getFirstTimeSyncAction True True True False 0 =
     (Inr Manual, [Dialog_show ''Replace or Merge''
         [''Sync Manually'', ''Merge'', ''Replace Local'', ''Cancel''] 3,
       Telemetry ''sync/firstTimeSync'' [(''action'', ''manual'')]])
   \<and> getFirstTimeSyncAction True True True False 1 =
     (Inr Merge, [Dialog_show ''Replace or Merge''
         [''Sync Manually'', ''Merge'', ''Replace Local'', ''Cancel''] 3,
       Telemetry ''sync/firstTimeSync'' [(''action'', ''merge'')]])
   \<and> getFirstTimeSyncAction True True True False 2 =
     (Inr Pull, [Dialog_show ''Replace or Merge''
         [''Sync Manually'', ''Merge'', ''Replace Local'', ''Cancel''] 3,
       Telemetry ''sync/firstTimeSync'' [(''action'', ''pull'')]])
   \<and> getFirstTimeSyncAction True True True False 3 =
     (Inl Canceled, [Dialog_show ''Replace or Merge''
         [''Sync Manually'', ''Merge'', ''Replace Local'', ''Cancel''] 3,
       Telemetry ''sync/firstTimeSync'' [(''action'', ''cancelled'')]])"
  using first_time_sync_prompt_outcomes [of 0] first_time_sync_prompt_outcomes [of 1]
    first_time_sync_prompt_outcomes [of 2] first_time_sync_prompt_outcomes [of 3]
  by simp


subsection \<open>Refresh\<close>

lemma get_currentSessionId_snd:
  "snd (get_currentSessionId s) = loaded s"
  by (simp add: get_currentSessionId_def currentSessionId_def loaded_def split: option.splits)

lemma currentSessionId_simps [simp]:
  "currentSessionId (s\<lparr>cachedCurrentSessionId := Some v\<rparr>) = v"
  "currentSessionId (s\<lparr>trace := t\<rparr>) = currentSessionId s"
  "currentSessionId (s\<lparr>all_map := m\<rparr>) = currentSessionId s"
  "currentSessionId (s\<lparr>accountStatus := a\<rparr>) = currentSessionId s"
  by (simp_all add: get_currentSessionId_def currentSessionId_def getStoredCachedSessionId_def
      split: option.splits)

lemma loaded_simps [simp]:
  "loaded (loaded s) = loaded s"
  "currentSessionId (loaded s) = currentSessionId s"
  "currentSessionId (log es s) = currentSessionId s"
  "loaded (log es s) = log es (loaded s)"
  "log es2 (log es1 s) = log (es1 @ es2) s"
  "log [] s = s"
  by (simp_all add: loaded_def log_def)

lemma loaded_fields [simp]:
  "trace (loaded s) = trace s"
  "all_map (loaded s) = all_map s"
  "accountStatus (loaded s) = accountStatus s"
  "storedSessionId (loaded s) = storedSessionId s"
  "authenticationProviders (loaded s) = authenticationProviders s"
  "userDataSyncPreview (loaded s) = userDataSyncPreview s"
  "cachedCurrentSessionId (loaded s) = Some (currentSessionId s)"
  by (simp_all add: loaded_def)

lemma log_fields [simp]:
  "trace (log es s) = trace s @ es"
  "all_map (log es s) = all_map s"
  "accountStatus (log es s) = accountStatus s"
  "storedSessionId (log es s) = storedSessionId s"
  "authenticationProviders (log es s) = authenticationProviders s"
  "userDataSyncPreview (log es s) = userDataSyncPreview s"
  "cachedCurrentSessionId (log es s) = cachedCurrentSessionId s"
  by (simp_all add: log_def)

lemma all_accounts_simps [simp]:
  "all_accounts (loaded s) = all_accounts s"
  "all_accounts (log es s) = all_accounts s"
  "all_accounts (s\<lparr>accountStatus := a\<rparr>) = all_accounts s"
  by (simp_all add: all_accounts_def)

lemma isCurrentAccount_eq:
  "isCurrentAccount a s = (Some (sessionId a) = currentSessionId s, loaded s)"
  using get_currentSessionId_snd [of s]
  by (cases "get_currentSessionId s") (simp add: isCurrentAccount_def currentSessionId_def)

lemma filter_isCurrentAccount_eq:
  "filter_isCurrentAccount as s =
     (filter (\<lambda>a. Some (sessionId a) = currentSessionId s) as, if as = [] then s else loaded s)"
  by (induction as arbitrary: s) (simp_all add: isCurrentAccount_eq)

lemma current_eq:
  "current s =
     (find (\<lambda>a. Some (sessionId a) = currentSessionId s) (all_accounts s),
      if all_accounts s = [] then s else loaded s)"
proof -
  have "(case filter P xs of [] \<Rightarrow> None | a # rest \<Rightarrow> Some a) = find P xs" for P and xs :: "'a list"
    by (induction xs) simp_all
  then show ?thesis by (simp add: current_def filter_isCurrentAccount_eq)
qed

lemma fetched_refl: "fetched s s"
  unfolding fetched_def by (rule exI [of _ "[]"]) simp

lemma fetched_log: "list_all is_GetSessions gs \<Longrightarrow> fetched s (log gs s)"
  unfolding fetched_def by blast

lemma fetched_loaded: "fetched s (loaded s)"
  unfolding fetched_def by (rule exI [of _ "[]"]) simp

lemma fetched_trans: "fetched s s1 \<Longrightarrow> fetched s1 s2 \<Longrightarrow> fetched s s2"
proof -
  assume "fetched s s1" "fetched s1 s2"
  then obtain g1 g2 where g: "list_all is_GetSessions g1" "list_all is_GetSessions g2"
    and a: "s1 = log g1 s \<or> s1 = loaded (log g1 s)"
    and b: "s2 = log g2 s1 \<or> s2 = loaded (log g2 s1)"
    unfolding fetched_def by blast
  have "list_all is_GetSessions (g1 @ g2)" using g by simp
  moreover have "s2 = log (g1 @ g2) s \<or> s2 = loaded (log (g1 @ g2) s)"
    using a b by auto
  ultimately show ?thesis unfolding fetched_def by blast
qed

lemma getAccounts_loop_state:
  "snd (getAccounts_loop pid xs accounts cur s) = (if xs = [] then s else loaded s)"
  by (induction xs arbitrary: accounts cur s) (simp_all add: isCurrentAccount_eq Let_def)

lemma fetched_getAccounts: "fetched s (snd (getAccounts env pid s))"
proof (cases "getSessions env pid")
  case (Inl e)
  then show ?thesis by (simp add: getAccounts_def Let_def fetched_log)
next
  case (Inr r)
  define xs where "xs = (case r of None \<Rightarrow> [] | Some ys \<Rightarrow> ys)"
  have "snd (getAccounts env pid s) = snd (getAccounts_loop pid xs [] None (log [GetSessions pid] s))"
    using Inr by (simp add: getAccounts_def Let_def xs_def split: prod.splits)
  also have "\<dots> = (if xs = [] then log [GetSessions pid] s else loaded (log [GetSessions pid] s))"
    by (rule getAccounts_loop_state)
  finally show ?thesis
    unfolding fetched_def by (intro exI [of _ "[GetSessions pid]"]) simp
qed

lemma fetched_update_loop: "fetched s (snd (update_loop env ps acc s))"
proof (induction ps arbitrary: acc s)
  case Nil
  then show ?case by (simp add: fetched_refl)
next
  case (Cons p ps)
  obtain r s1 where g: "getAccounts env (provider_id p) s = (r, s1)" by (cases "getAccounts env (provider_id p) s")
  have f: "fetched s s1" using fetched_getAccounts [of s env "provider_id p"] g by simp
  show ?case
  proof (cases r)
    case (Inl e)
    then show ?thesis using g f by simp
  next
    case (Inr accounts)
    then show ?thesis using g f Cons.IH [of s1 "Map_set (provider_id p) accounts acc"]
      by (simp add: fetched_trans)
  qed
qed

lemma fetched_fields:
  assumes "fetched s s'"
  shows "all_map s' = all_map s" "accountStatus s' = accountStatus s"
    "storedSessionId s' = storedSessionId s" "currentSessionId s' = currentSessionId s"
    "authenticationProviders s' = authenticationProviders s"
    "userDataSyncPreview s' = userDataSyncPreview s"
    "\<exists>gs. list_all is_GetSessions gs \<and> trace s' = trace s @ gs"
    "cachedCurrentSessionId s' = cachedCurrentSessionId s
       \<or> cachedCurrentSessionId s' = Some (currentSessionId s)"
  using assms unfolding fetched_def by auto

lemma updateToken_eq:
  "updateToken env cur s =
     (case updateAccount env (sink_value cur) of Inl e \<Rightarrow> Inl e | Inr u \<Rightarrow> Inr (),
      log (token_effects cur @ [UpdateAccount (sink_value cur)]) s)"
  by (simp add: updateToken_def token_effects_def sink_value_def Let_def
      split: option.splits sum.splits)

lemma updateAccountStatus_fields [simp]:
  "all_map (updateAccountStatus cur s) = all_map s"
  "storedSessionId (updateAccountStatus cur s) = storedSessionId s"
  "currentSessionId (updateAccountStatus cur s) = currentSessionId s"
  "cachedCurrentSessionId (updateAccountStatus cur s) = cachedCurrentSessionId s"
  "authenticationProviders (updateAccountStatus cur s) = authenticationProviders s"
  "userDataSyncPreview (updateAccountStatus cur s) = userDataSyncPreview s"
  "all_accounts (updateAccountStatus cur s) = all_accounts s"
  "accountStatus (updateAccountStatus cur s) = (if cur \<noteq> None then Available else Unavailable)"
  by (simp_all add: updateAccountStatus_def Let_def)

lemma updateAccountStatus_trace:
  "trace (updateAccountStatus cur s) = trace s @
     (if accountStatus s \<noteq> (if cur \<noteq> None then Available else Unavailable)
      then [Log_debug ''Sync account status changed'' (accountStatus s)
              (if cur \<noteq> None then Available else Unavailable),
            AccountStatusContext_set (if cur \<noteq> None then Available else Unavailable),
            Fire_onDidChangeAccountStatus (if cur \<noteq> None then Available else Unavailable)]
      else [])"
  by (simp add: updateAccountStatus_def Let_def)

lemma update_failed_fetch:
  "update_loop env (authenticationProviders s) [] s = (Inl e, s1) \<Longrightarrow> update env s = (Inl e, s1)"
  by (simp add: update_def)

text \<open>The state a refresh leaves once every session list has been fetched.\<close>

lemma update_fetched:
  assumes L: "update_loop env (authenticationProviders s) [] s = (Inr m, s1)"
  shows "update env s =
     (let s2 = s1\<lparr>all_map := m\<rparr>;
          cur = find (\<lambda>a. Some (sessionId a) = currentSessionId s) (all_accounts s2);
          s3 = (if all_accounts s2 = [] then s2 else loaded s2);
          s4 = log (token_effects cur @ [UpdateAccount (sink_value cur)]) s3
      in case updateAccount env (sink_value cur) of
           Inl e \<Rightarrow> (Inl e, s4)
         | Inr u \<Rightarrow> (Inr (), updateAccountStatus cur s4))"
proof -
  have f: "fetched s s1" using fetched_update_loop [of s env "authenticationProviders s" "[]"] L by simp
  have c: "currentSessionId (s1\<lparr>all_map := m\<rparr>) = currentSessionId s"
    using fetched_fields(4) [OF f] by simp
  show ?thesis
    using L c by (simp add: update_def Let_def current_eq updateToken_eq split: sum.splits)
qed

lemma update_post:
  assumes L: "update_loop env (authenticationProviders s) [] s = (Inr m, s1)"
  defines "cur \<equiv> find (\<lambda>a. Some (sessionId a) = currentSessionId s) (flatten (Map_values m))"
  defines "st \<equiv> (if cur \<noteq> None then Available else Unavailable)"
  shows "fst (update env s) = (case updateAccount env (sink_value cur) of Inl e \<Rightarrow> Inl e | Inr u \<Rightarrow> Inr ())"
    and "all_map (snd (update env s)) = m"
    and "currentSessionId (snd (update env s)) = currentSessionId s"
    and "storedSessionId (snd (update env s)) = storedSessionId s"
    and "userDataSyncPreview (snd (update env s)) = userDataSyncPreview s"
    and "authenticationProviders (snd (update env s)) = authenticationProviders s"
    and "fst (current (snd (update env s))) = cur"
    and "accountStatus (snd (update env s)) =
           (case updateAccount env (sink_value cur) of Inl e \<Rightarrow> accountStatus s | Inr u \<Rightarrow> st)"
    and "\<exists>gs. list_all is_GetSessions gs \<and>
           trace (snd (update env s)) = trace s @ gs @ token_effects cur @ [UpdateAccount (sink_value cur)]
             @ (case updateAccount env (sink_value cur) of
                  Inl e \<Rightarrow> []
                | Inr u \<Rightarrow> if accountStatus s \<noteq> st
                           then [Log_debug ''Sync account status changed'' (accountStatus s) st,
                                 AccountStatusContext_set st, Fire_onDidChangeAccountStatus st]
                           else [])"
    and "cachedCurrentSessionId (snd (update env s)) = cachedCurrentSessionId s
           \<or> cachedCurrentSessionId (snd (update env s)) = Some (currentSessionId s)"
proof -
  have f: "fetched s s1" using fetched_update_loop [of s env "authenticationProviders s" "[]"] L by simp
  note ff = fetched_fields [OF f]
  note u = update_fetched [OF L]
  have aa: "all_accounts (s1\<lparr>all_map := m\<rparr>) = flatten (Map_values m)"
    by (simp add: all_accounts_def)
  show "fst (update env s) = (case updateAccount env (sink_value cur) of Inl e \<Rightarrow> Inl e | Inr u \<Rightarrow> Inr ())"
    unfolding u by (simp add: Let_def aa cur_def split: sum.splits)
  show "all_map (snd (update env s)) = m"
    unfolding u by (simp add: Let_def split: sum.splits)
  show cs: "currentSessionId (snd (update env s)) = currentSessionId s"
    unfolding u using ff(4) by (simp add: Let_def split: sum.splits)
  show "storedSessionId (snd (update env s)) = storedSessionId s"
    unfolding u using ff(3) by (simp add: Let_def split: sum.splits)
  show "userDataSyncPreview (snd (update env s)) = userDataSyncPreview s"
    unfolding u using ff(6) by (simp add: Let_def split: sum.splits)
  show "authenticationProviders (snd (update env s)) = authenticationProviders s"
    unfolding u using ff(5) by (simp add: Let_def split: sum.splits)
  have am: "all_accounts (snd (update env s)) = flatten (Map_values m)"
    unfolding u by (simp add: Let_def aa split: sum.splits)
  show "fst (current (snd (update env s))) = cur"
    by (simp add: current_eq cs am cur_def)
  show "accountStatus (snd (update env s)) =
           (case updateAccount env (sink_value cur) of Inl e \<Rightarrow> accountStatus s | Inr u \<Rightarrow> st)"
    unfolding u using ff(2) by (simp add: Let_def aa cur_def st_def split: sum.splits)
  from ff(7) obtain gs where gs: "list_all is_GetSessions gs" "trace s1 = trace s @ gs" by blast
  have "trace (snd (update env s)) = trace s @ gs @ token_effects cur @ [UpdateAccount (sink_value cur)]
             @ (case updateAccount env (sink_value cur) of
                  Inl e \<Rightarrow> []
                | Inr u \<Rightarrow> if accountStatus s \<noteq> st
                           then [Log_debug ''Sync account status changed'' (accountStatus s) st,
                                 AccountStatusContext_set st, Fire_onDidChangeAccountStatus st]
                           else [])"
    unfolding u using gs(2) ff(2)
    by (simp add: Let_def aa cur_def st_def updateAccountStatus_trace split: sum.splits)
  with gs(1) show "\<exists>gs. list_all is_GetSessions gs \<and>
           trace (snd (update env s)) = trace s @ gs @ token_effects cur @ [UpdateAccount (sink_value cur)]
             @ (case updateAccount env (sink_value cur) of
                  Inl e \<Rightarrow> []
                | Inr u \<Rightarrow> if accountStatus s \<noteq> st
                           then [Log_debug ''Sync account status changed'' (accountStatus s) st,
                                 AccountStatusContext_set st, Fire_onDidChangeAccountStatus st]
                           else [])"
    by blast
  show "cachedCurrentSessionId (snd (update env s)) = cachedCurrentSessionId s
           \<or> cachedCurrentSessionId (snd (update env s)) = Some (currentSessionId s)"
    unfolding u using ff(8) ff(4) by (auto simp: Let_def split: sum.splits)
qed

lemma getAccounts_ok:
  "getSessions env pid = Inr r \<Longrightarrow> \<exists>accounts s1. getAccounts env pid s = (Inr accounts, s1)"
  by (simp add: getAccounts_def Let_def split: prod.splits)

lemma update_loop_ok:
  "\<forall>p \<in> set ps. \<exists>r. getSessions env (provider_id p) = Inr r \<Longrightarrow>
     \<exists>m s1. update_loop env ps acc s = (Inr m, s1)"
proof (induction ps arbitrary: acc s)
  case Nil
  then show ?case by simp
next
  case (Cons p ps)
  then obtain r where "getSessions env (provider_id p) = Inr r" by auto
  from getAccounts_ok [OF this] obtain accounts s1
    where "getAccounts env (provider_id p) s = (Inr accounts, s1)" by blast
  moreover have "\<exists>m s2. update_loop env ps (Map_set (provider_id p) accounts acc) s1 = (Inr m, s2)"
    using Cons by simp
  ultimately show ?case by simp
qed

lemma ex_update:
  "update (sessions_env [alice_session tok]) (fresh_service (Some ''s1'')) =
     (Inr (),
      \<lparr>authenticationProviders = [github], accountStatus = Available,
       all_map = [(''github'', [\<lparr>authenticationProviderId = ''github'', session = alice_session tok\<rparr>])],
       cachedCurrentSessionId = Some (Some ''s1''), storedSessionId = Some ''s1'',
       userDataSyncPreview = new_UserDataSyncPreview [],
       trace = [GetSessions ''github'',
                Log_trace ''Preferences Sync: Updating the token for the account'' ''alice''] @
               (case tok of
                  Inr t \<Rightarrow> [Log_trace ''Preferences Sync: Token updated for the account'' ''alice'',
                            UpdateAccount (Some \<lparr>value_token = t,
                              value_authenticationProviderId = ''github''\<rparr>)]
                | Inl e \<Rightarrow> [Log_error e, UpdateAccount None]) @
               [Log_debug ''Sync account status changed'' Uninitialized Available,
                AccountStatusContext_set Available,
                Fire_onDidChangeAccountStatus Available]\<rparr>)"
  by (cases tok)
     (simp_all add: update_def getAccounts_def updateToken_def updateAccountStatus_def current_def
      isCurrentAccount_def get_currentSessionId_def getStoredCachedSessionId_def log_def
      all_accounts_def Map_values_def flatten_def sessionId_def accountName_def token_def
      sessions_env_def fresh_service_def alice_session_def github_def Let_def)

lemma is_GetSessions_other:
  "is_GetSessions e \<Longrightarrow> \<not> is_UpdateAccount e \<and> \<not> is_status_event e \<and> \<not> is_sync_step e"
  by (cases e) simp_all

lemma filter_GetSessions [simp]:
  "list_all is_GetSessions gs \<Longrightarrow> filter is_UpdateAccount gs = []"
  "list_all is_GetSessions gs \<Longrightarrow> filter is_status_event gs = []"
  "list_all is_GetSessions gs \<Longrightarrow> filter is_sync_step gs = []"
  by (induction gs; simp add: is_GetSessions_other)+

lemma filter_token_effects [simp]:
  "filter is_UpdateAccount (token_effects cur) = []"
  "filter is_status_event (token_effects cur) = []"
  "filter is_sync_step (token_effects cur) = []"
  by (simp_all add: token_effects_def split: option.splits sum.splits)


lemmas ws_defs = update_def getAccounts_def updateToken_def updateAccountStatus_def current_def
  isCurrentAccount_def get_currentSessionId_def set_currentSessionId_def
  getStoredCachedSessionId_def log_def all_accounts_def Map_values_def flatten_def
  sessionId_def accountName_def accountId_def token_def doPick_def switch_def pick_def Let_def

lemmas ws_ex_defs = sessions_env_def fresh_service_def alice_session_def github_def login_env_def

lemma ex_update_signed_out:
  "update (sessions_env []) (fresh_service None) =
     (Inr (),
      \<lparr>authenticationProviders = [github], accountStatus = Unavailable,
       all_map = [(''github'', [])],
       cachedCurrentSessionId = None, storedSessionId = None,
       userDataSyncPreview = new_UserDataSyncPreview [],
       trace = [GetSessions ''github'', UpdateAccount None,
                Log_debug ''Sync account status changed'' Uninitialized Unavailable,
                AccountStatusContext_set Unavailable,
                Fire_onDidChangeAccountStatus Unavailable]\<rparr>)"
  by (simp add: ws_defs ws_ex_defs)


text \<open>
  Claim C6, as amended. In every refresh whose session lists are all fetched, the token sink
  is updated exactly once. It receives the token and the provider id of the current account
  when there is one and its token can be read; it receives no account when there is no
  current account, and also when reading the token fails: then the failure is logged and the
  sink is still called, with no account. The failure itself is absorbed: the refresh fails
  only if the sink rejects the update.
\<close>

theorem refresh_updates_token_sink:
  assumes "\<forall>p \<in> set (authenticationProviders s). \<exists>r. getSessions env (provider_id p) = Inr r"
  shows "\<exists>v. filter is_UpdateAccount (trace (snd (update env s)))
               = filter is_UpdateAccount (trace s) @ [UpdateAccount v]
     \<and> fst (update env s) = (case updateAccount env v of Inl e \<Rightarrow> Inl e | Inr u \<Rightarrow> Inr ())
     \<and> (case fst (current (snd (update env s))) of
          None \<Rightarrow> v = None
        | Some c \<Rightarrow>
            (case token c of
               Inr t \<Rightarrow> v = Some \<lparr>value_token = t,
                                   value_authenticationProviderId = authenticationProviderId c\<rparr>
             | Inl e \<Rightarrow> v = None
                        \<and> Log_error e \<in> set (drop (length (trace s)) (trace (snd (update env s))))))"
proof -
  from update_loop_ok [OF assms] obtain m s1
    where L: "update_loop env (authenticationProviders s) [] s = (Inr m, s1)" by blast
  define cur where "cur = find (\<lambda>a. Some (sessionId a) = currentSessionId s) (flatten (Map_values m))"
  note p = update_post [OF L, folded cur_def]
  from p(9) obtain gs where gs: "list_all is_GetSessions gs"
    and t: "trace (snd (update env s)) = trace s @ gs @ token_effects cur
             @ [UpdateAccount (sink_value cur)]
             @ (case updateAccount env (sink_value cur) of
                  Inl e \<Rightarrow> []
                | Inr u \<Rightarrow> if accountStatus s \<noteq> (if cur \<noteq> None then Available else Unavailable)
                           then [Log_debug ''Sync account status changed'' (accountStatus s)
                                   (if cur \<noteq> None then Available else Unavailable),
                                 AccountStatusContext_set (if cur \<noteq> None then Available else Unavailable),
                                 Fire_onDidChangeAccountStatus
                                   (if cur \<noteq> None then Available else Unavailable)]
                           else [])" by blast
  have a: "filter is_UpdateAccount (trace (snd (update env s)))
               = filter is_UpdateAccount (trace s) @ [UpdateAccount (sink_value cur)]"
    unfolding t using gs by (simp split: sum.splits)
  have c: "(case cur of
          None \<Rightarrow> sink_value cur = None
        | Some c \<Rightarrow>
            (case token c of
               Inr t \<Rightarrow> sink_value cur = Some \<lparr>value_token = t,
                                   value_authenticationProviderId = authenticationProviderId c\<rparr>
             | Inl e \<Rightarrow> sink_value cur = None
                        \<and> Log_error e \<in> set (drop (length (trace s)) (trace (snd (update env s))))))"
    unfolding t by (simp add: sink_value_def token_effects_def split: option.splits sum.splits)
  show ?thesis
    using a p(1) c unfolding p(7) by blast
qed


theorem refresh_updates_token_sink_witness:
  "getSessions (sessions_env [alice_session (Inr ''tok'')]) (provider_id github)
     = Inr (Some [alice_session (Inr ''tok'')])
   \<and> filter is_UpdateAccount
       (trace (snd (update (sessions_env [alice_session (Inr ''tok'')]) (fresh_service (Some ''s1'')))))
     = [UpdateAccount (Some \<lparr>value_token = ''tok'', value_authenticationProviderId = ''github''\<rparr>)]
   \<and> fst (update (sessions_env [alice_session (Inr ''tok'')]) (fresh_service (Some ''s1''))) = Inr ()"
proof -
  have h: "\<forall>p \<in> set (authenticationProviders (fresh_service (Some ''s1''))).
      \<exists>r. getSessions (sessions_env [alice_session (Inr ''tok'')]) (provider_id p) = Inr r"
    by (simp add: fresh_service_def sessions_env_def)
  show ?thesis
    using refresh_updates_token_sink [OF h]
    by (simp add: ex_update) (simp add: sessions_env_def)
qed


text \<open>
  The claim as first stated fails: when reading the token fails, the call to the sink is not
  skipped; \<^verbatim>\<open>updateAccount(undefined)\<close> follows the logged error.
\<close>

theorem token_failure_still_updates_sink_counterexample:
  "trace (snd (update (sessions_env [alice_session (Inl (Error ''token unavailable''))])
                 (fresh_service (Some ''s1'')))) =
     [GetSessions ''github'',
      Log_trace ''Preferences Sync: Updating the token for the account'' ''alice'',
      Log_error (Error ''token unavailable''),
      UpdateAccount None,
      Log_debug ''Sync account status changed'' Uninitialized Available,
      AccountStatusContext_set Available,
      Fire_onDidChangeAccountStatus Available]"
  by (simp add: ex_update)


text \<open>
  Claim C7. After a refresh that completed: if there is a current account, its session id is
  the current session id as the service reads it, through its cache of the persisted value
  (it is the stored value whenever the cache was empty or agreed with the storage before
  the refresh), and the status is \<open>Available\<close>; otherwise the status is \<open>Unavailable\<close>.
  The status event is fired during the refresh exactly when the status after differs from
  the status before, once, with the new status.
\<close>

theorem refresh_account_status:
  assumes "update env s = (Inr (), s')"
  shows "(case fst (current s') of
            Some a \<Rightarrow> Some (sessionId a) = currentSessionId s' \<and> accountStatus s' = Available
          | None \<Rightarrow> accountStatus s' = Unavailable)
     \<and> (cachedCurrentSessionId s = None \<or> cachedCurrentSessionId s = Some (storedSessionId s)
          \<longrightarrow> currentSessionId s' = storedSessionId s')
     \<and> filter is_status_event (trace s') = filter is_status_event (trace s) @
          (if accountStatus s' \<noteq> accountStatus s
           then [Fire_onDidChangeAccountStatus (accountStatus s')] else [])"
proof -
  obtain r s1 where L0: "update_loop env (authenticationProviders s) [] s = (r, s1)"
    by (cases "update_loop env (authenticationProviders s) [] s")
  from assms L0 obtain m where r: "r = Inr m"
    by (cases r) (simp_all add: update_def)
  have L: "update_loop env (authenticationProviders s) [] s = (Inr m, s1)" using L0 r by simp
  define cur where "cur = find (\<lambda>a. Some (sessionId a) = currentSessionId s) (flatten (Map_values m))"
  define st where "st = (if cur \<noteq> None then Available else Unavailable)"
  note p = update_post [OF L, folded cur_def, folded st_def]
  have s': "snd (update env s) = s'" "fst (update env s) = Inr ()" using assms by simp_all
  from p(1) s'(2) obtain u where ok: "updateAccount env (sink_value cur) = Inr u"
    by (cases "updateAccount env (sink_value cur)") simp_all
  have status: "accountStatus s' = st" using p(8) ok s'(1) by simp
  have cs: "currentSessionId s' = currentSessionId s" using p(3) s'(1) by simp
  have curr: "fst (current s') = cur" using p(7) s'(1) by simp
  have a: "(case fst (current s') of
            Some a \<Rightarrow> Some (sessionId a) = currentSessionId s' \<and> accountStatus s' = Available
          | None \<Rightarrow> accountStatus s' = Unavailable)"
  proof (cases cur)
    case None
    then show ?thesis using curr status by (simp add: st_def)
  next
    case (Some a)
    then have "Some (sessionId a) = currentSessionId s"
      unfolding cur_def by (auto dest: find_Some_mem)
    then show ?thesis using Some curr status cs by (simp add: st_def)
  qed
  have b: "currentSessionId s' = storedSessionId s'"
    if "cachedCurrentSessionId s = None \<or> cachedCurrentSessionId s = Some (storedSessionId s)"
  proof -
    have "currentSessionId s = storedSessionId s"
      using that by (auto simp: currentSessionId_def get_currentSessionId_def
          getStoredCachedSessionId_def)
    then show ?thesis using cs p(4) s'(1) by simp
  qed
  from p(9) obtain gs where gs: "list_all is_GetSessions gs"
    and t: "trace s' = trace s @ gs @ token_effects cur @ [UpdateAccount (sink_value cur)]
             @ (if accountStatus s \<noteq> st
                then [Log_debug ''Sync account status changed'' (accountStatus s) st,
                      AccountStatusContext_set st, Fire_onDidChangeAccountStatus st]
                else [])"
    using ok s'(1) by auto
  have c: "filter is_status_event (trace s') = filter is_status_event (trace s) @
          (if accountStatus s' \<noteq> accountStatus s
           then [Fire_onDidChangeAccountStatus (accountStatus s')] else [])"
    unfolding t status using gs by auto
  show ?thesis using a b c by blast
qed

theorem refresh_account_status_witness:
  "fst (update (sessions_env [alice_session (Inr ''tok'')]) (fresh_service (Some ''s1''))) = Inr ()
   \<and> fst (current (snd (update (sessions_env [alice_session (Inr ''tok'')])
                         (fresh_service (Some ''s1'')))))
       = Some \<lparr>authenticationProviderId = ''github'', session = alice_session (Inr ''tok'')\<rparr>
   \<and> sessionId \<lparr>authenticationProviderId = ''github'', session = alice_session (Inr ''tok'')\<rparr> = ''s1''
   \<and> storedSessionId (snd (update (sessions_env [alice_session (Inr ''tok'')])
                         (fresh_service (Some ''s1'')))) = Some ''s1''
   \<and> accountStatus (snd (update (sessions_env [alice_session (Inr ''tok'')])
                         (fresh_service (Some ''s1'')))) = Available
   \<and> filter is_status_event (trace (snd (update (sessions_env [alice_session (Inr ''tok'')])
                         (fresh_service (Some ''s1'')))))
       = [Fire_onDidChangeAccountStatus Available]
   \<and> fst (update (sessions_env []) (fresh_service None)) = Inr ()
   \<and> fst (current (snd (update (sessions_env []) (fresh_service None)))) = None
   \<and> accountStatus (snd (update (sessions_env []) (fresh_service None))) = Unavailable"
proof -
  have a: "update (sessions_env [alice_session (Inr ''tok'')]) (fresh_service (Some ''s1''))
     = (Inr (), snd (update (sessions_env [alice_session (Inr ''tok'')]) (fresh_service (Some ''s1''))))"
    by (simp add: ex_update)
  have b: "update (sessions_env []) (fresh_service None)
     = (Inr (), snd (update (sessions_env []) (fresh_service None)))"
    by (simp add: ex_update_signed_out)
  have c: "fst (current (snd (update (sessions_env [alice_session (Inr ''tok'')])
                         (fresh_service (Some ''s1'')))))
       = Some \<lparr>authenticationProviderId = ''github'', session = alice_session (Inr ''tok'')\<rparr>"
    by (simp add: ex_update) (simp add: ws_defs alice_session_def)
  have d: "fst (current (snd (update (sessions_env []) (fresh_service None)))) = None"
    by (simp add: ex_update_signed_out) (simp add: ws_defs)
  have e: "sessionId \<lparr>authenticationProviderId = ''github'', session = alice_session (Inr ''tok'')\<rparr> = ''s1''"
    by (simp add: sessionId_def alice_session_def)
  have g: "storedSessionId (snd (update (sessions_env [alice_session (Inr ''tok'')])
                         (fresh_service (Some ''s1'')))) = Some ''s1''"
    by (simp add: ex_update)
  have h: "accountStatus (snd (update (sessions_env [alice_session (Inr ''tok'')])
                         (fresh_service (Some ''s1'')))) = Available"
     "filter is_status_event (trace (snd (update (sessions_env [alice_session (Inr ''tok'')])
                         (fresh_service (Some ''s1'')))))
       = [Fire_onDidChangeAccountStatus Available]"
     "accountStatus (snd (update (sessions_env []) (fresh_service None))) = Unavailable"
    by (simp_all add: ex_update ex_update_signed_out)
  have i: "fst (update (sessions_env [alice_session (Inr ''tok'')]) (fresh_service (Some ''s1''))) = Inr ()"
    "fst (update (sessions_env []) (fresh_service None)) = Inr ()"
    by (simp_all add: ex_update ex_update_signed_out)
  show ?thesis
    using refresh_account_status [OF a] refresh_account_status [OF b]
    by (simp only: c d e g h i simp_thms)
qed


subsection \<open>Turning on without an account\<close>

lemma quiet_refl: "quiet s s"
  by (simp add: quiet_def)

lemma quiet_trans: "quiet s s1 \<Longrightarrow> quiet s1 s2 \<Longrightarrow> quiet s s2"
  by (simp add: quiet_def)

lemma quiet_update: "quiet s (snd (update env s))"
proof -
  obtain r s1 where L0: "update_loop env (authenticationProviders s) [] s = (r, s1)"
    by (cases "update_loop env (authenticationProviders s) [] s")
  have f: "fetched s s1" using fetched_update_loop [of s env "authenticationProviders s" "[]"] L0 by simp
  show ?thesis
  proof (cases r)
    case (Inl e)
    from fetched_fields(7) [OF f] obtain gs where "list_all is_GetSessions gs" "trace s1 = trace s @ gs"
      by blast
    then show ?thesis
      using Inl L0 fetched_fields(6) [OF f] by (simp add: update_failed_fetch quiet_def)
  next
    case (Inr m)
    with L0 have L: "update_loop env (authenticationProviders s) [] s = (Inr m, s1)" by simp
    note p = update_post [OF L]
    from p(9) obtain gs where gs: "list_all is_GetSessions gs"
      and t: "trace (snd (update env s)) = trace s @ gs
             @ token_effects (find (\<lambda>a. Some (sessionId a) = currentSessionId s) (flatten (Map_values m)))
             @ [UpdateAccount (sink_value (find (\<lambda>a. Some (sessionId a) = currentSessionId s) (flatten (Map_values m))))]
             @ (case updateAccount env (sink_value (find (\<lambda>a. Some (sessionId a) = currentSessionId s) (flatten (Map_values m)))) of
                  Inl e \<Rightarrow> []
                | Inr u \<Rightarrow> if accountStatus s \<noteq> (if find (\<lambda>a. Some (sessionId a) = currentSessionId s) (flatten (Map_values m)) \<noteq> None then Available else Unavailable)
                           then [Log_debug ''Sync account status changed'' (accountStatus s) (if find (\<lambda>a. Some (sessionId a) = currentSessionId s) (flatten (Map_values m)) \<noteq> None then Available else Unavailable),
                                 AccountStatusContext_set (if find (\<lambda>a. Some (sessionId a) = currentSessionId s) (flatten (Map_values m)) \<noteq> None then Available else Unavailable), Fire_onDidChangeAccountStatus (if find (\<lambda>a. Some (sessionId a) = currentSessionId s) (flatten (Map_values m)) \<noteq> None then Available else Unavailable)]
                           else [])"
      by blast
    have "filter is_sync_step (trace (snd (update env s))) = filter is_sync_step (trace s)"
      unfolding t using gs by (simp split: sum.splits)
    then show ?thesis using p(5) by (simp add: quiet_def)
  qed
qed

lemma quiet_current: "quiet s (snd (current s))"
  by (simp add: current_eq quiet_def)

lemma quiet_switch: "quiet s (snd (switch sid name aid env s))"
proof -
  define s3 where "s3 = log [Telemetry ''sync.userAccount'' [(''id'', aid)]]
     (set_currentSessionId (Some sid) (snd (current s)))"
  have a: "quiet s s3"
    by (simp add: s3_def current_eq quiet_def set_currentSessionId_def)
  have "snd (switch sid name aid env s) = snd (update env s3)"
    by (simp add: switch_def s3_def Let_def split: prod.splits)
  then show ?thesis using quiet_trans [OF a quiet_update [of s3 env]] by simp
qed

lemma quiet_doPick: "quiet s (snd (doPick pe s))"
proof (cases "authenticationProviders s = []")
  case True
  then show ?thesis by (simp add: doPick_def quiet_refl)
next
  case False
  obtain r s1 where u: "update (doPick_refresh pe) s = (r, s1)"
    by (cases "update (doPick_refresh pe) s")
  have q: "quiet s s1" using quiet_update [of s "doPick_refresh pe"] u by simp
  have "quiet s1 (snd (doPick pe s))"
    using False u
    by (auto simp: doPick_def quiet_def Let_def split: sum.splits list.splits)
  then show ?thesis using q by (rule quiet_trans [rotated])
qed

lemma quiet_pick: "quiet s (snd (pick pe s))"
proof -
  obtain r s1 where d: "doPick pe s = (r, s1)" by (cases "doPick pe s")
  have q: "quiet s s1" using quiet_doPick [of s pe] d by simp
  have "quiet s1 (snd (pick pe s))"
  proof (cases r)
    case (Inl e)
    then show ?thesis using d by (simp add: pick_def quiet_refl)
  next
    case (Inr res)
    show ?thesis
    proof (cases res)
      case None
      then show ?thesis using d Inr by (simp add: pick_def quiet_refl)
    next
      case (Some pr)
      show ?thesis
      proof (cases pr)
        case (Picked_account a)
        obtain r3 s3 where sw: "switch (sessionId a) (accountName a) (accountId a) (switch_refresh pe) s1 = (r3, s3)"
          by (cases "switch (sessionId a) (accountName a) (accountId a) (switch_refresh pe) s1")
        have "quiet s1 s3"
          using quiet_switch [of s1 "sessionId a" "accountName a" "accountId a" "switch_refresh pe"] sw
          by simp
        moreover have "snd (pick pe s) = s3"
          using d Inr Some Picked_account sw by (cases r3) (simp_all add: pick_def)
        ultimately show ?thesis by simp
      next
        case (Picked_provider p)
        define s2 where "s2 = log [Login (provider_id p) (scopes p)] s1"
        have a: "quiet s1 s2" by (simp add: s2_def quiet_def)
        show ?thesis
        proof (cases "login pe (provider_id p) (scopes p)")
          case (Inl e)
          then show ?thesis using d Inr Some Picked_provider a
            by (simp add: pick_def s2_def Let_def)
        next
          case (Inr x)
          obtain r3 s3 where sw: "switch (session_id x) (account_label x) (account_id x) (switch_refresh pe) s2 = (r3, s3)"
            by (cases "switch (session_id x) (account_label x) (account_id x) (switch_refresh pe) s2")
          have "quiet s2 s3"
            using quiet_switch [of s2 "session_id x" "account_label x" "account_id x" "switch_refresh pe"] sw
            by simp
          with a have "quiet s1 s3" by (rule quiet_trans)
          moreover have "snd (pick pe s) = s3"
            using d \<open>r = Inr res\<close> Some Picked_provider Inr sw
            by (cases r3) (simp_all add: pick_def s2_def Let_def)
          ultimately show ?thesis by simp
        qed
      qed
    qed
  qed
  then show ?thesis using q by (rule quiet_trans [rotated])
qed


text \<open>
  Claim C10. If \<^verbatim>\<open>pick\<close> returns true and the account status is then not
  \<open>Available\<close>, \<^verbatim>\<open>turnOn\<close> throws the error "No account available", which is not
  the cancellation error; the state is the one \<^verbatim>\<open>pick\<close> left, no call of the sync
  that precedes turning on (\<^verbatim>\<open>resetLocal\<close>, task creation, preview, the first-time
  dialog and its telemetry, merge, pull, push) was made, and the preview is untouched.
\<close>

theorem turnOn_without_account:
  assumes "pick pe s = (Inr True, s1)" and "accountStatus s1 \<noteq> Available"
  shows "turnOn pe se s = (Inl (Error ''No account available''), s1)
     \<and> fst (turnOn pe se s) \<noteq> Inl Canceled
     \<and> filter is_sync_step (trace (snd (turnOn pe se s))) = filter is_sync_step (trace s)
     \<and> userDataSyncPreview (snd (turnOn pe se s)) = userDataSyncPreview s"
proof -
  have t: "turnOn pe se s = (Inl (Error ''No account available''), s1)"
    using assms by (simp add: turnOn_def)
  have "quiet s s1" using quiet_pick [of s pe] assms(1) by simp
  then show ?thesis using t by (simp add: quiet_def)
qed


lemma ex_pick:
  "pick login_env (fresh_service None) =
     (Inr True,
      \<lparr>authenticationProviders = [github], accountStatus = Unavailable,
       all_map = [(''github'', [])],
       cachedCurrentSessionId = Some (Some ''s1''), storedSessionId = Some ''s1'',
       userDataSyncPreview = new_UserDataSyncPreview [],
       trace = [GetSessions ''github'', UpdateAccount None,
                Log_debug ''Sync account status changed'' Uninitialized Unavailable,
                AccountStatusContext_set Unavailable,
                Fire_onDidChangeAccountStatus Unavailable,
                Login ''github'' [''user:email''],
                Telemetry ''sync.userAccount'' [(''id'', ''a1'')],
                GetSessions ''github'', UpdateAccount None]\<rparr>)"
  by (simp add: ws_defs ws_ex_defs)


theorem turnOn_without_account_witness:
  "fst (pick login_env (fresh_service None)) = Inr True
   \<and> accountStatus (snd (pick login_env (fresh_service None))) = Unavailable
   \<and> fst (turnOn login_env merge_env (fresh_service None)) = Inl (Error ''No account available'')
   \<and> filter is_sync_step (trace (snd (turnOn login_env merge_env (fresh_service None)))) = []"
proof -
  have a: "pick login_env (fresh_service None) = (Inr True, snd (pick login_env (fresh_service None)))"
    by (simp add: ex_pick)
  have b: "accountStatus (snd (pick login_env (fresh_service None))) \<noteq> Available"
    by (simp add: ex_pick)
  have c: "trace (fresh_service None) = []" by (simp add: fresh_service_def)
  show ?thesis
    using turnOn_without_account [OF a b, of merge_env] c
    by (simp add: ex_pick)
qed

text \<open>With an account, the first call after \<^verbatim>\<open>pick\<close> is \<^verbatim>\<open>resetLocal\<close>.\<close>

lemma trace_syncBeforeTurningOn_try:
  "\<exists>es. trace (snd (syncBeforeTurningOn_try se t s)) = trace s @ es"
  by (auto simp: syncBeforeTurningOn_try_def Let_def syncManually_begin_def
      split: sum.splits prod.splits FirstTimeSyncAction.splits)

lemma trace_syncBeforeTurningOn:
  "\<exists>es. trace (snd (syncBeforeTurningOn se s)) = trace s @ ResetLocal # es"
proof (cases "resetLocal se")
  case (Inl e)
  then show ?thesis by (simp add: syncBeforeTurningOn_def Let_def)
next
  case (Inr u)
  show ?thesis
  proof (cases "createManualSyncTask se")
    case (Inl e)
    then show ?thesis using Inr by (simp add: syncBeforeTurningOn_def Let_def)
  next
    case (Inr t)
    obtain r3 s3 where b: "syncBeforeTurningOn_try se t (log [ResetLocal, CreateManualSyncTask] s) = (r3, s3)"
      by (cases "syncBeforeTurningOn_try se t (log [ResetLocal, CreateManualSyncTask] s)")
    from trace_syncBeforeTurningOn_try [of se t "log [ResetLocal, CreateManualSyncTask] s"] b
    obtain es where "trace s3 = trace s @ ResetLocal # CreateManualSyncTask # es" by auto
    then show ?thesis using Inr \<open>resetLocal se = Inr u\<close> b
      by (auto simp: syncBeforeTurningOn_def Let_def split: sum.splits outcome.splits)
  qed
qed

lemma turnOn_with_account:
  assumes "pick pe s = (Inr True, s1)" and "accountStatus s1 = Available"
  shows "\<exists>es. trace (snd (turnOn pe se s)) = trace s1 @ ResetLocal # es"
proof -
  obtain r2 s2 where b: "syncBeforeTurningOn se s1 = (r2, s2)" by (cases "syncBeforeTurningOn se s1")
  from trace_syncBeforeTurningOn [of se s1] b
  obtain es where "trace s2 = trace s1 @ ResetLocal # es" by auto
  then show ?thesis using assms b
    by (auto simp: turnOn_def Let_def split: sum.splits outcome.splits)
qed

text \<open>
  Finishing a manual session disposes its task and leaves the preview, with the session it
  stores, as it was.
\<close>

lemma turnOn_resume_preview:
  "userDataSyncPreview (snd (turnOn_resume se visible t s)) = userDataSyncPreview s"
  by (simp add: turnOn_resume_def Let_def log_def split: sum.splits)

lemma turnOn_resume_disposes:
  "Task_dispose t \<in> set (trace (snd (turnOn_resume se visible t s)))"
  by (simp add: turnOn_resume_def Let_def log_def split: sum.splits)



end
